theory Spec2Isabelle
  imports Complex_Main
begin

section \<open>Errors (utils/errors.ts)\<close>

text \<open>
  The class hierarchy of \<^verbatim>\<open>utils/errors.ts\<close>: \<^verbatim>\<open>GmailMCPError\<close> and its four
  subclasses. A thrown value is either an instance of that hierarchy, some other
  \<^verbatim>\<open>Error\<close> (a library error, a \<^verbatim>\<open>TypeError\<close>), or \<^verbatim>\<open>undefined\<close>
  (what \<^verbatim>\<open>throw lastError!\<close> throws when the loop body never ran).
\<close>

datatype error_class =
  GmailMCPErrorClass | AuthenticationErrorClass | RateLimitErrorClass
  | ValidationErrorClass | NotFoundErrorClass

record gmail_error =
  err_class :: error_class
  err_message :: string
  err_code :: string
  err_statusCode :: "nat option"
  err_retryable :: bool

datatype thrown = GmailMCP gmail_error | OtherError string | Undefined

text \<open>\<^verbatim>\<open>new GmailMCPError(message, code)\<close>: no status code, \<^verbatim>\<open>retryable = false\<close>.\<close>

definition GmailMCPError :: "string \<Rightarrow> string \<Rightarrow> gmail_error" where
  "GmailMCPError message code =
     \<lparr>err_class = GmailMCPErrorClass, err_message = message, err_code = code,
      err_statusCode = None, err_retryable = False\<rparr>"

definition AuthenticationError :: "string \<Rightarrow> gmail_error" where
  "AuthenticationError message =
     \<lparr>err_class = AuthenticationErrorClass,
      err_message = message @
        ''. Please check your GMAIL_CLIENT_ID, GMAIL_CLIENT_SECRET, and GMAIL_REFRESH_TOKEN in .env file.'',
      err_code = ''AUTH_ERROR'', err_statusCode = Some 401, err_retryable = False\<rparr>"

definition RateLimitError :: "string \<Rightarrow> gmail_error" where
  "RateLimitError message =
     \<lparr>err_class = RateLimitErrorClass,
      err_message = message @ ''. Please wait before retrying.'',
      err_code = ''RATE_LIMIT_ERROR'', err_statusCode = Some 429, err_retryable = True\<rparr>"

definition ValidationError :: "string \<Rightarrow> string option \<Rightarrow> gmail_error" where
  "ValidationError message field =
     \<lparr>err_class = ValidationErrorClass,
      err_message = (case field of
          Some f \<Rightarrow> ''Validation error in '' @ f @ '': '' @ message
        | None \<Rightarrow> ''Validation error: '' @ message),
      err_code = ''VALIDATION_ERROR'', err_statusCode = Some 400, err_retryable = False\<rparr>"

definition NotFoundError :: "string \<Rightarrow> gmail_error" where
  "NotFoundError resource =
     \<lparr>err_class = NotFoundErrorClass, err_message = resource @ '' not found'',
      err_code = ''NOT_FOUND_ERROR'', err_statusCode = Some 404, err_retryable = False\<rparr>"

text \<open>\<^verbatim>\<open>error instanceof RateLimitError\<close> and \<^verbatim>\<open>error instanceof GmailMCPError\<close>.\<close>

fun instanceof_RateLimitError :: "thrown \<Rightarrow> bool" where
  "instanceof_RateLimitError (GmailMCP e) = (err_class e = RateLimitErrorClass)"
| "instanceof_RateLimitError _ = False"

fun instanceof_GmailMCPError :: "thrown \<Rightarrow> bool" where
  "instanceof_GmailMCPError (GmailMCP e) = True"
| "instanceof_GmailMCPError _ = False"

fun retryable :: "thrown \<Rightarrow> bool" where
  "retryable (GmailMCP e) = err_retryable e"
| "retryable _ = False"

section \<open>The retry wrapper (withRetry)\<close>

text \<open>
  What awaiting a promise gives: the value it resolved with, the value it rejected with,
  or nothing at all when it never settles.
\<close>

datatype 'a outcome = Resolved 'a | Rejected thrown | Pending

text \<open>
  The operation \<^verbatim>\<open>fn\<close> is called once per attempt and may behave differently each
  time, so it is a function on an explicit state \<open>'s\<close>: it returns its outcome and
  the next state. The \<^verbatim>\<open>setTimeout\<close> waits are recorded, in order, in a list of
  durations. The loop is the \<^verbatim>\<open>for\<close> loop of the source, with \<open>attempt\<close> its
  counter and \<open>lastError\<close> its variable; the result after the loop is
  \<^verbatim>\<open>throw lastError!\<close>. Awaiting an operation that never settles never settles.
  The \<^verbatim>\<open>console.warn\<close> line of the rate-limit branch is not recorded.
\<close>

function withRetry_loop ::
  "('s \<Rightarrow> 'a outcome \<times> 's) \<Rightarrow> nat \<Rightarrow> nat \<Rightarrow> nat \<Rightarrow> thrown \<Rightarrow> 's \<Rightarrow> nat list
     \<Rightarrow> 'a outcome \<times> 's \<times> nat list" where
  "withRetry_loop fn maxRetries delayMs attempt lastError s waits =
     (if attempt < maxRetries then
        (case fn s of
           (Resolved v, s') \<Rightarrow> (Resolved v, s', waits)
         | (Pending, s') \<Rightarrow> (Pending, s', waits)
         | (Rejected error, s') \<Rightarrow>
             if instanceof_RateLimitError error \<and> attempt < maxRetries - 1 then
               withRetry_loop fn maxRetries delayMs (attempt + 1) error s'
                 (waits @ [delayMs * 2 ^ attempt])
             else if instanceof_GmailMCPError error \<and> \<not> retryable error then
               (Rejected error, s', waits)
             else if attempt = maxRetries - 1 then
               (Rejected error, s', waits)
             else
               withRetry_loop fn maxRetries delayMs (attempt + 1) error s'
                 (waits @ [delayMs * (attempt + 1)]))
      else (Rejected lastError, s, waits))"
  by pat_completeness auto
termination
  by (relation "measure (\<lambda>(fn, maxRetries, delayMs, attempt, lastError, s, waits).
        maxRetries - attempt)") auto

declare withRetry_loop.simps [simp del]

definition withRetry ::
  "('s \<Rightarrow> 'a outcome \<times> 's) \<Rightarrow> nat \<Rightarrow> nat \<Rightarrow> 's \<Rightarrow> 'a outcome \<times> 's \<times> nat list" where
  "withRetry fn maxRetries delayMs s = withRetry_loop fn maxRetries delayMs 0 Undefined s []"

text \<open>The defaults of the signature: \<^verbatim>\<open>maxRetries = 3\<close>, \<^verbatim>\<open>delayMs = 1000\<close>.\<close>

definition withRetry_default ::
  "('s \<Rightarrow> 'a outcome \<times> 's) \<Rightarrow> 's \<Rightarrow> 'a outcome \<times> 's \<times> nat list" where
  "withRetry_default fn s = withRetry fn 3 1000 s"

text \<open>
  An operation that plays a fixed script of outcomes, one per call; the state is the
  part of the script not yet played. Past the end of the script it never settles.
\<close>

fun scripted :: "'a outcome list \<Rightarrow> 'a outcome \<times> 'a outcome list" where
  "scripted [] = (Pending, [])"
| "scripted (r # rs) = (r, rs)"

text \<open>
  The vocabulary of the specification of the retry policy. \<open>fails_with fn s es\<close> is
  the state reached when \<open>fn\<close>, started in \<open>s\<close>, is called once per element of
  \<open>es\<close> and throws exactly these errors in this order (\<open>None\<close> if it does not).
  \<open>retried e\<close> says that \<open>e\<close> is an error the policy retries: the rate-limit kind,
  or a value outside the recognised hierarchy, or one flagged retryable.
  \<open>backoff d k e\<close> is the wait after attempt \<open>k\<close> failed with \<open>e\<close>: exponential
  for the rate-limit kind, linear otherwise.
\<close>

fun fails_with :: "('s \<Rightarrow> 'a outcome \<times> 's) \<Rightarrow> 's \<Rightarrow> thrown list \<Rightarrow> 's option" where
  "fails_with fn s [] = Some s"
| "fails_with fn s (e # es) =
     (case fn s of
        (Rejected e', s') \<Rightarrow> if e' = e then fails_with fn s' es else None
      | (Resolved v, s') \<Rightarrow> None
      | (Pending, s') \<Rightarrow> None)"

definition retried :: "thrown \<Rightarrow> bool" where
  "retried e = (instanceof_RateLimitError e \<or> \<not> instanceof_GmailMCPError e \<or> retryable e)"

definition backoff :: "nat \<Rightarrow> nat \<Rightarrow> thrown \<Rightarrow> nat" where
  "backoff d k e = (if instanceof_RateLimitError e then d * 2 ^ k else d * (k + 1))"

text \<open>The waits after attempts \<open>k\<close>, \<open>k + 1\<close>, ... failed with the errors listed.\<close>

fun backoffs :: "nat \<Rightarrow> nat \<Rightarrow> thrown list \<Rightarrow> nat list" where
  "backoffs d k [] = []"
| "backoffs d k (e # es) = backoff d k e # backoffs d (Suc k) es"

section \<open>JavaScript strings and truthiness\<close>

text \<open>\<^verbatim>\<open>s.startsWith(p)\<close>, \<^verbatim>\<open>xs.join(sep)\<close> and \<^verbatim>\<open>s.includes(sub)\<close>.\<close>

definition startsWith :: "string \<Rightarrow> string \<Rightarrow> bool" where
  "startsWith s p = (take (length p) s = p)"

fun join :: "string \<Rightarrow> string list \<Rightarrow> string" where
  "join sep [] = []"
| "join sep [x] = x"
| "join sep (x # y # ys) = x @ sep @ join sep (y # ys)"

fun includes_str :: "string \<Rightarrow> string \<Rightarrow> bool" where
  "includes_str [] sub = (sub = [])"
| "includes_str (c # cs) sub = (startsWith (c # cs) sub \<or> includes_str cs sub)"

text \<open>
  A value of type \<^verbatim>\<open>string | string[]\<close>. In a condition a string is falsy exactly
  when it is empty, \<^verbatim>\<open>undefined\<close> is falsy, and an array is always truthy, the
  empty one too.
\<close>

datatype str_or_arr = Str string | Arr "string list"

definition truthy :: "string option \<Rightarrow> bool" where
  "truthy x = (case x of None \<Rightarrow> False | Some s \<Rightarrow> s \<noteq> [])"

fun truthy_soa :: "str_or_arr \<Rightarrow> bool" where
  "truthy_soa (Str s) = (s \<noteq> [])"
| "truthy_soa (Arr xs) = True"

text \<open>\<^verbatim>\<open>x ? (Array.isArray(x) ? x : [x]) : undefined\<close>\<close>

fun to_array :: "str_or_arr option \<Rightarrow> string list option" where
  "to_array None = None"
| "to_array (Some (Arr xs)) = Some xs"
| "to_array (Some (Str s)) = (if s \<noteq> [] then Some [s] else None)"

section \<open>The transmission client (SmtpClient)\<close>

record attachment =
  att_filename :: string
  att_path :: "string option"
  att_content :: "string option"
  att_contentType :: "string option"

record SendEmailOptions =
  so_to :: str_or_arr
  so_subject :: string
  so_body :: "string option"
  so_htmlBody :: "string option"
  so_cc :: "str_or_arr option"
  so_bcc :: "str_or_arr option"
  so_replyTo :: "str_or_arr option"
  so_attachments :: "attachment list option"
  so_inReplyTo :: "string option"
  so_references :: "str_or_arr option"

record ReplyEmailOptions =
  ro_originalUid :: nat
  ro_originalMessageId :: string
  ro_subject :: string
  ro_body :: "string option"
  ro_htmlBody :: "string option"
  ro_cc :: "str_or_arr option"
  ro_bcc :: "str_or_arr option"

text \<open>
  The second argument of \<^verbatim>\<open>replyEmail\<close>; \<open>oe_from\<close> is \<^verbatim>\<open>from?.address\<close>,
  absent when the original has no \<^verbatim>\<open>from\<close>.
\<close>

record originalEmail =
  oe_from :: "string option"
  oe_subject :: "string option"
  oe_messageId :: "string option"
  oe_references :: "string list option"

text \<open>The \<^verbatim>\<open>mailOptions\<close> object handed to the transporter.\<close>

record mailOptions =
  mo_from :: string
  mo_to :: "string list"
  mo_subject :: string
  mo_text :: "string option"
  mo_html :: "string option"
  mo_cc :: "string list option"
  mo_bcc :: "string list option"
  mo_replyTo :: "string list option"
  mo_inReplyTo :: "string option"
  mo_references :: "string option"
  mo_attachments :: "attachment list option"

text \<open>
  What \<^verbatim>\<open>transporter.sendMail\<close> does with a message: it fails, with an
  \<^verbatim>\<open>Error\<close> carrying a message or with some other value, or it returns an info
  object whose \<^verbatim>\<open>messageId\<close> may be missing.
\<close>

datatype send_outcome = SendFails "string option" | Sent "string option"

text \<open>
  The client is its configured user and its transporter. The state threaded through a
  call is the outbox: the list of messages handed to the transporter so far, each of them
  one network submission.
\<close>

record SmtpClient =
  config_user :: string
  transporter :: "mailOptions \<Rightarrow> send_outcome"

definition build_mailOptions :: "SmtpClient \<Rightarrow> SendEmailOptions \<Rightarrow> mailOptions" where
  "build_mailOptions client options =
     \<lparr>mo_from = config_user client,
      mo_to = (case so_to options of Arr xs \<Rightarrow> xs | Str x \<Rightarrow> [x]),
      mo_subject = so_subject options,
      mo_text = so_body options,
      mo_html = so_htmlBody options,
      mo_cc = to_array (so_cc options),
      mo_bcc = to_array (so_bcc options),
      mo_replyTo = to_array (so_replyTo options),
      mo_inReplyTo = so_inReplyTo options,
      mo_references = map_option (join '' '') (to_array (so_references options)),
      mo_attachments = so_attachments options\<rparr>"

text \<open>The body of the function passed to \<^verbatim>\<open>withRetry\<close> in \<^verbatim>\<open>sendEmail\<close>.\<close>

definition sendEmail_attempt ::
  "SmtpClient \<Rightarrow> SendEmailOptions \<Rightarrow> mailOptions list \<Rightarrow> string outcome \<times> mailOptions list" where
  "sendEmail_attempt client options outbox =
     (let mail = build_mailOptions client options in
      (case transporter client mail of
         Sent messageId \<Rightarrow> Resolved (if truthy messageId then the messageId else [])
       | SendFails msg \<Rightarrow>
           Rejected (GmailMCP (GmailMCPError
             (''Failed to send email: '' @ (case msg of Some m \<Rightarrow> m | None \<Rightarrow> ''Unknown error''))
             ''SMTP_ERROR'')),
       outbox @ [mail]))"

definition sendEmail ::
  "SmtpClient \<Rightarrow> SendEmailOptions \<Rightarrow> mailOptions list
     \<Rightarrow> string outcome \<times> mailOptions list \<times> nat list" where
  "sendEmail client options outbox =
     (if \<not> truthy_soa (so_to options) \<or> so_subject options = [] \<or>
         (\<not> truthy (so_body options) \<and> \<not> truthy (so_htmlBody options))
      then (Rejected (GmailMCP (GmailMCPError
              ''to, subject, and body (or htmlBody) are required'' ''VALIDATION_ERROR'')),
            outbox, [])
      else withRetry_default (sendEmail_attempt client options) outbox)"

text \<open>The two computed constants of \<^verbatim>\<open>replyEmail\<close>: \<^verbatim>\<open>subject\<close> and \<^verbatim>\<open>references\<close>.\<close>

definition reply_subject :: "string \<Rightarrow> string option \<Rightarrow> string" where
  "reply_subject replySubject original_subject =
     (if startsWith replySubject ''Re:'' \<or>
         (case original_subject of None \<Rightarrow> False | Some s \<Rightarrow> startsWith s ''Re:'')
      then replySubject
      else ''Re: '' @ (if truthy original_subject then the original_subject else replySubject))"

definition reply_references :: "originalEmail \<Rightarrow> string option" where
  "reply_references original =
     (case oe_references original of
        Some refs \<Rightarrow> Some (join '' '' (map the (filter truthy (map Some refs @ [oe_messageId original]))))
      | None \<Rightarrow> oe_messageId original)"

definition replyEmail ::
  "SmtpClient \<Rightarrow> ReplyEmailOptions \<Rightarrow> originalEmail \<Rightarrow> mailOptions list
     \<Rightarrow> string outcome \<times> mailOptions list \<times> nat list" where
  "replyEmail client options original outbox =
     (if \<not> truthy (ro_body options) \<and> \<not> truthy (ro_htmlBody options)
      then (Rejected (GmailMCP (GmailMCPError
              ''Either body or htmlBody must be provided'' ''VALIDATION_ERROR'')),
            outbox, [])
      else sendEmail client
        \<lparr>so_to = Str (if truthy (oe_from original) then the (oe_from original) else []),
         so_subject = reply_subject (ro_subject options) (oe_subject original),
         so_body = ro_body options,
         so_htmlBody = ro_htmlBody options,
         so_cc = ro_cc options,
         so_bcc = ro_bcc options,
         so_replyTo = None,
         so_attachments = None,
         so_inReplyTo = oe_messageId original,
         so_references = map_option Str (reply_references original)\<rparr>
        outbox)"

section \<open>Messages (email/types.ts) and parseEmail\<close>

record EmailAddress =
  ea_name :: "string option"
  ea_address :: "string option"

record EmailAttachment =
  ea_filename :: string
  ea_contentType :: string
  ea_size :: nat
  ea_contentId :: "string option"
  ea_checksum :: "string option"

record EmailMessage =
  em_uid :: nat
  em_messageId :: "string option"
  em_subject :: "string option"
  em_from :: "EmailAddress option"
  em_to :: "EmailAddress list option"
  em_cc :: "EmailAddress list option"
  em_bcc :: "EmailAddress list option"
  em_replyTo :: "EmailAddress list option"
  em_date :: "nat option"
  em_flags :: "string list"
  em_unread :: bool
  em_body_text :: "string option"
  em_body_html :: "string option"
  em_attachments :: "EmailAttachment list option"
  em_headers :: "(string \<times> string list) list"
  em_threadId :: "string option"

text \<open>
  What the mail parser returns, as far as \<^verbatim>\<open>parseEmail\<close> reads it. An address
  field is absent, one object or an array of objects; an attachment has every property
  optional; a header value is a string or an array.
\<close>

datatype address_field = NoAddress | OneAddress EmailAddress | ManyAddresses "EmailAddress list"

record raw_attachment =
  ra_filename :: "string option"
  ra_contentType :: "string option"
  ra_size :: "nat option"
  ra_contentId :: "string option"
  ra_checksum :: "string option"

record ParsedMail =
  pm_messageId :: "string option"
  pm_subject :: "string option"
  pm_from :: address_field
  pm_to :: address_field
  pm_cc :: address_field
  pm_bcc :: address_field
  pm_replyTo :: address_field
  pm_date :: "nat option"
  pm_text :: "string option"
  pm_html :: "string option"
  pm_attachments :: "raw_attachment list option"
  pm_headers :: "(string \<times> str_or_arr) list"
  pm_inReplyTo :: "string option"
  pm_references :: "str_or_arr option"

text \<open>The seen marker, \<^verbatim>\<open>'\\Seen'\<close>: a backslash followed by \<^verbatim>\<open>Seen\<close>.\<close>

definition Seen :: string where
  "Seen = CHR 0x5C # ''Seen''"

fun parseAddress :: "address_field \<Rightarrow> EmailAddress option" where
  "parseAddress NoAddress = None"
| "parseAddress (ManyAddresses []) = None"
| "parseAddress (ManyAddresses (a # as)) = Some \<lparr>ea_name = ea_name a, ea_address = ea_address a\<rparr>"
| "parseAddress (OneAddress a) = Some \<lparr>ea_name = ea_name a, ea_address = ea_address a\<rparr>"

fun parseAddresses :: "address_field \<Rightarrow> EmailAddress list option" where
  "parseAddresses NoAddress = None"
| "parseAddresses (ManyAddresses as) =
     Some (map (\<lambda>a. \<lparr>ea_name = ea_name a, ea_address = ea_address a\<rparr>) as)"
| "parseAddresses (OneAddress a) = Some [\<lparr>ea_name = ea_name a, ea_address = ea_address a\<rparr>]"

definition parseAttachment :: "raw_attachment \<Rightarrow> EmailAttachment" where
  "parseAttachment att =
     \<lparr>ea_filename = (if truthy (ra_filename att) then the (ra_filename att) else ''unnamed''),
      ea_contentType = (if truthy (ra_contentType att) then the (ra_contentType att)
                        else ''application/octet-stream''),
      ea_size = (case ra_size att of Some n \<Rightarrow> n | None \<Rightarrow> 0),
      ea_contentId = ra_contentId att,
      ea_checksum = ra_checksum att\<rparr>"

text \<open>\<^verbatim>\<open>parsed.references?.[0]\<close>: the first entry of an array, the first character of a string.\<close>

fun first_reference :: "str_or_arr option \<Rightarrow> string option" where
  "first_reference None = None"
| "first_reference (Some (Arr [])) = None"
| "first_reference (Some (Arr (x # xs))) = Some x"
| "first_reference (Some (Str [])) = None"
| "first_reference (Some (Str (c # cs))) = Some [c]"

definition parseEmail :: "ParsedMail \<Rightarrow> nat \<Rightarrow> string list \<Rightarrow> EmailMessage" where
  "parseEmail parsed uid flags =
     (let unread = \<not> (Seen \<in> set flags);
          attachments = map_option (map parseAttachment) (pm_attachments parsed)
      in \<lparr>em_uid = uid,
          em_messageId = pm_messageId parsed,
          em_subject = pm_subject parsed,
          em_from = parseAddress (pm_from parsed),
          em_to = parseAddresses (pm_to parsed),
          em_cc = parseAddresses (pm_cc parsed),
          em_bcc = parseAddresses (pm_bcc parsed),
          em_replyTo = parseAddresses (pm_replyTo parsed),
          em_date = pm_date parsed,
          em_flags = flags,
          em_unread = unread,
          em_body_text = (if truthy (pm_text parsed) then pm_text parsed else None),
          em_body_html = (if truthy (pm_html parsed) then pm_html parsed else None),
          em_attachments = (case attachments of
              Some (a # as) \<Rightarrow> Some (a # as) | Some [] \<Rightarrow> None | None \<Rightarrow> None),
          em_headers = map (\<lambda>(key, v). (key, case v of Arr xs \<Rightarrow> xs | Str x \<Rightarrow> [x]))
                         (pm_headers parsed),
          em_threadId = (if truthy (pm_inReplyTo parsed) then pm_inReplyTo parsed
                         else first_reference (pm_references parsed))\<rparr>)"

text \<open>The relation between the \<open>unread\<close> field of a message and its flags.\<close>

definition unread_matches_flags :: "EmailMessage \<Rightarrow> bool" where
  "unread_matches_flags m = (em_unread m = (Seen \<notin> set (em_flags m)))"

section \<open>The mailbox client (ImapClient)\<close>

text \<open>
  \<^verbatim>\<open>xs.slice(start, end)\<close> on integers: a negative index counts from the end, and
  both ends are clamped to the array.
\<close>

definition js_slice :: "'a list \<Rightarrow> int \<Rightarrow> int \<Rightarrow> 'a list" where
  "js_slice xs start end' =
     (let len = int (length xs);
          k = (if start < 0 then max (len + start) 0 else min start len);
          final = (if end' < 0 then max (len + end') 0 else min end' len)
      in take (nat (final - k)) (drop (nat k) xs))"

text \<open>Decimal digits of a number, as a template literal prints a UID.\<close>

definition digit_char :: "nat \<Rightarrow> char" where
  "digit_char d = ''0123456789'' ! d"

fun show_nat :: "nat \<Rightarrow> string" where
  "show_nat n =
     (if n < 10 then [digit_char n] else show_nat (n div 10) @ [digit_char (n mod 10)])"

declare show_nat.simps [simp del]

text \<open>
  Search criteria are an array whose entries are strings or arrays of strings.
\<close>

type_synonym criteria = "str_or_arr list"

record EmailListOptions =
  lo_limit :: "int option"
  lo_offset :: "int option"
  lo_searchCriteria :: "criteria option"
  lo_mailbox :: "string option"

record SearchOptions =
  sr_criteria :: criteria
  sr_mailbox :: "string option"
  sr_limit :: "int option"

text \<open>
  What the fetch of a batch delivers, one event per handler that runs, in the order in
  which the handlers complete. A message's \<^verbatim>\<open>end\<close> handler runs with the
  attributes that arrived for it (its UID and flags, or none) and the outcome of parsing
  its source: the parser throws an error with a message, or returns a parsed mail. The
  fetch may also emit \<^verbatim>\<open>error\<close>, with a message.
\<close>

record attributes =
  at_uid :: nat
  at_flags :: "string list option"

datatype parse_outcome = ParseThrows string | Parsed ParsedMail

datatype fetch_event = MessageEnd "attributes option" parse_outcome | FetchError string

text \<open>
  The server as the client sees it during one call: whether connecting and opening a
  mailbox fail (with which message), what a search answers (an error, or the matching
  UIDs, possibly none at all), and what the fetch of a list of UIDs delivers.
\<close>

record imap_server =
  sv_connect :: "string option"
  sv_openBox :: "string \<Rightarrow> string option"
  sv_search :: "criteria \<Rightarrow> string + nat list option"
  sv_fetch :: "nat list \<Rightarrow> fetch_event list"
  sv_addFlags :: "nat list \<Rightarrow> string \<Rightarrow> string option"

text \<open>
  The client's state is its \<^verbatim>\<open>connected\<close> flag. \<^verbatim>\<open>openMailbox\<close> connects
  first when the client is not connected.
\<close>

definition openMailbox :: "imap_server \<Rightarrow> string \<Rightarrow> bool \<Rightarrow> thrown option \<times> bool" where
  "openMailbox server mailbox conn =
     (case (if conn then None else sv_connect server) of
        Some err \<Rightarrow>
          (Some (GmailMCP (GmailMCPError (''IMAP connection error: '' @ err) ''IMAP_ERROR'')),
           False)
      | None \<Rightarrow>
          (case sv_openBox server mailbox of
             Some err \<Rightarrow>
               (Some (GmailMCP (GmailMCPError (''Failed to open mailbox: '' @ err) ''IMAP_ERROR'')),
                True)
           | None \<Rightarrow> (None, True)))"

text \<open>
  The variables the handlers of \<^verbatim>\<open>listEmails\<close> share: the \<^verbatim>\<open>emails\<close> array, the
  \<^verbatim>\<open>processed\<close> counter, the promise being settled, and the lines written with
  \<^verbatim>\<open>console.error\<close>. Settling a promise that is already settled changes nothing;
  the promise is resolved with the messages collected up to that moment.
\<close>

record fetch_state =
  fs_emails :: "EmailMessage list"
  fs_processed :: nat
  fs_promise :: "EmailMessage list outcome"
  fs_log :: "string list"

definition settle :: "'a outcome \<Rightarrow> 'a outcome \<Rightarrow> 'a outcome" where
  "settle current new = (if current = Pending then new else current)"

definition count_processed :: "nat \<Rightarrow> fetch_state \<Rightarrow> fetch_state" where
  "count_processed n st =
     (let processed = fs_processed st + 1 in
      st\<lparr>fs_processed := processed,
         fs_promise := (if processed = n then settle (fs_promise st) (Resolved (fs_emails st))
                        else fs_promise st)\<rparr>)"

fun on_event :: "nat \<Rightarrow> fetch_state \<Rightarrow> fetch_event \<Rightarrow> fetch_state" where
  "on_event n st (FetchError msg) =
     st\<lparr>fs_promise := settle (fs_promise st)
          (Rejected (GmailMCP (GmailMCPError (''IMAP fetch error: '' @ msg) ''IMAP_ERROR'')))\<rparr>"
| "on_event n st (MessageEnd None parse) = count_processed n st"
| "on_event n st (MessageEnd (Some attrs) (ParseThrows parseErr)) =
     count_processed n
       (st\<lparr>fs_log := fs_log st @
          [''Error parsing email '' @ show_nat (at_uid attrs) @ '': '' @ parseErr]\<rparr>)"
| "on_event n st (MessageEnd (Some attrs) (Parsed parsed)) =
     count_processed n
       (st\<lparr>fs_emails := fs_emails st @
          [parseEmail parsed (at_uid attrs)
             (case at_flags attrs of Some fl \<Rightarrow> fl | None \<Rightarrow> [])]\<rparr>)"

definition run_fetch :: "nat \<Rightarrow> fetch_event list \<Rightarrow> fetch_state" where
  "run_fetch n events =
     foldl (on_event n) \<lparr>fs_emails = [], fs_processed = 0, fs_promise = Pending, fs_log = []\<rparr> events"

text \<open>
  The defaults of the destructured options:
  \<^verbatim>\<open>limit = 50, offset = 0, searchCriteria = ['ALL'], mailbox = 'INBOX'\<close>. Then one run
  of the function \<^verbatim>\<open>listEmails\<close> passes to \<^verbatim>\<open>withRetry\<close>; the state is the
  connected flag and the log.
\<close>

definition limit_of :: "EmailListOptions \<Rightarrow> int" where
  "limit_of options = (case lo_limit options of Some l \<Rightarrow> l | None \<Rightarrow> 50)"

definition offset_of :: "EmailListOptions \<Rightarrow> int" where
  "offset_of options = (case lo_offset options of Some k \<Rightarrow> k | None \<Rightarrow> 0)"

definition searchCriteria_of :: "EmailListOptions \<Rightarrow> criteria" where
  "searchCriteria_of options =
     (case lo_searchCriteria options of Some c \<Rightarrow> c | None \<Rightarrow> [Str ''ALL''])"

definition mailbox_of :: "EmailListOptions \<Rightarrow> string" where
  "mailbox_of options = (case lo_mailbox options of Some m \<Rightarrow> m | None \<Rightarrow> ''INBOX'')"

definition listEmails_attempt ::
  "imap_server \<Rightarrow> EmailListOptions \<Rightarrow> bool \<times> string list
     \<Rightarrow> EmailMessage list outcome \<times> bool \<times> string list" where
  "listEmails_attempt server options s =
     (let limit = limit_of options;
          offset = offset_of options;
          searchCriteria = searchCriteria_of options;
          mailbox = mailbox_of options
      in case openMailbox server mailbox (fst s) of
           (Some err, conn) \<Rightarrow> (Rejected err, conn, snd s)
         | (None, conn) \<Rightarrow>
             (case sv_search server searchCriteria of
                Inl err \<Rightarrow>
                  (Rejected (GmailMCP (GmailMCPError (''IMAP search error: '' @ err) ''IMAP_ERROR'')),
                   conn, snd s)
              | Inr None \<Rightarrow> (Resolved [], conn, snd s)
              | Inr (Some results) \<Rightarrow>
                  if length results = 0 then (Resolved [], conn, snd s)
                  else
                    let uids = js_slice (rev results) offset (offset + limit) in
                    if length uids = 0 then (Resolved [], conn, snd s)
                    else
                      let st = run_fetch (length uids) (sv_fetch server uids)
                      in (fs_promise st, conn, snd s @ fs_log st)))"

definition listEmails ::
  "imap_server \<Rightarrow> EmailListOptions \<Rightarrow> bool
     \<Rightarrow> EmailMessage list outcome \<times> (bool \<times> string list) \<times> nat list" where
  "listEmails server options conn =
     withRetry_default (listEmails_attempt server options) (conn, [])"

definition searchEmails ::
  "imap_server \<Rightarrow> SearchOptions \<Rightarrow> bool
     \<Rightarrow> EmailMessage list outcome \<times> (bool \<times> string list) \<times> nat list" where
  "searchEmails server options conn =
     listEmails server
       \<lparr>lo_limit = Some (case sr_limit options of Some l \<Rightarrow> l | None \<Rightarrow> 50),
        lo_offset = None,
        lo_searchCriteria = Some (sr_criteria options),
        lo_mailbox = Some (case sr_mailbox options of Some m \<Rightarrow> m | None \<Rightarrow> ''INBOX'')\<rparr>
       conn"

text \<open>
  \<^verbatim>\<open>getEmail\<close>: the first handler to settle the promise decides; the UID of the
  message is the one asked for.
\<close>

fun getEmail_event :: "nat \<Rightarrow> EmailMessage outcome \<Rightarrow> fetch_event \<Rightarrow> EmailMessage outcome" where
  "getEmail_event uid p (MessageEnd attrs (Parsed parsed)) =
     settle p (Resolved (parseEmail parsed uid
       (case attrs of Some a \<Rightarrow> (case at_flags a of Some fl \<Rightarrow> fl | None \<Rightarrow> []) | None \<Rightarrow> [])))"
| "getEmail_event uid p (MessageEnd attrs (ParseThrows parseErr)) =
     settle p (Rejected (GmailMCP (GmailMCPError (''Error parsing email: '' @ parseErr) ''IMAP_ERROR'')))"
| "getEmail_event uid p (FetchError msg) =
     settle p (Rejected (GmailMCP
       (if includes_str msg ''not found'' then NotFoundError (''Email with UID '' @ show_nat uid)
        else GmailMCPError (''IMAP fetch error: '' @ msg) ''IMAP_ERROR'')))"

definition getEmail_attempt ::
  "imap_server \<Rightarrow> nat \<Rightarrow> string \<Rightarrow> bool \<Rightarrow> EmailMessage outcome \<times> bool" where
  "getEmail_attempt server uid mailbox conn =
     (case openMailbox server mailbox conn of
        (Some err, conn') \<Rightarrow> (Rejected err, conn')
      | (None, conn') \<Rightarrow>
          (foldl (getEmail_event uid) Pending (sv_fetch server [uid]), conn'))"

definition getEmail ::
  "imap_server \<Rightarrow> nat \<Rightarrow> string \<Rightarrow> bool \<Rightarrow> EmailMessage outcome \<times> bool \<times> nat list" where
  "getEmail server uid mailbox conn =
     withRetry_default (getEmail_attempt server uid mailbox) conn"

definition markAsRead_attempt ::
  "imap_server \<Rightarrow> nat list \<Rightarrow> string \<Rightarrow> bool \<Rightarrow> unit outcome \<times> bool" where
  "markAsRead_attempt server uids mailbox conn =
     (case openMailbox server mailbox conn of
        (Some err, conn') \<Rightarrow> (Rejected err, conn')
      | (None, conn') \<Rightarrow>
          (case sv_addFlags server uids Seen of
             Some err \<Rightarrow>
               (Rejected (GmailMCP (GmailMCPError (''Failed to mark as read: '' @ err) ''IMAP_ERROR'')),
                conn')
           | None \<Rightarrow> (Resolved (), conn')))"

definition markAsRead ::
  "imap_server \<Rightarrow> nat list \<Rightarrow> string \<Rightarrow> bool \<Rightarrow> unit outcome \<times> bool \<times> nat list" where
  "markAsRead server uids mailbox conn =
     withRetry_default (markAsRead_attempt server uids mailbox) conn"

text \<open>
  What one event of a fetch contributes to a listing: the message of an
  \<^verbatim>\<open>end\<close> event that has attributes and a parsed source, and the line logged for
  one that has attributes and a source the parser rejects.
\<close>

fun parsed_message :: "fetch_event \<Rightarrow> EmailMessage list" where
  "parsed_message (MessageEnd (Some attrs) (Parsed parsed)) =
     [parseEmail parsed (at_uid attrs) (case at_flags attrs of Some fl \<Rightarrow> fl | None \<Rightarrow> [])]"
| "parsed_message _ = []"

fun parse_error_line :: "fetch_event \<Rightarrow> string list" where
  "parse_error_line (MessageEnd (Some attrs) (ParseThrows parseErr)) =
     [''Error parsing email '' @ show_nat (at_uid attrs) @ '': '' @ parseErr]"
| "parse_error_line _ = []"

fun is_message :: "fetch_event \<Rightarrow> bool" where
  "is_message (MessageEnd attrs parse) = True"
| "is_message (FetchError msg) = False"

section \<open>The scheduler (scheduler.ts)\<close>

text \<open>
  JavaScript numbers, as far as \<^verbatim>\<open>timeToCronExpression\<close> looks at them: not a
  number, an infinity, or a finite value (every finite double is a rational). The
  comparisons are those of the source against the constants 0, 23 and 59; every
  comparison with \<^verbatim>\<open>NaN\<close> is false. \<^verbatim>\<open>isNaN\<close> is also applied to
  \<^verbatim>\<open>undefined\<close>, where it is true.
\<close>

datatype js_number = NaN | Finite rat | PosInfinity | NegInfinity

fun js_less :: "js_number \<Rightarrow> rat \<Rightarrow> bool" where
  "js_less NaN c = False"
| "js_less (Finite q) c = (q < c)"
| "js_less PosInfinity c = False"
| "js_less NegInfinity c = True"

fun js_greater :: "js_number \<Rightarrow> rat \<Rightarrow> bool" where
  "js_greater NaN c = False"
| "js_greater (Finite q) c = (q > c)"
| "js_greater PosInfinity c = True"
| "js_greater NegInfinity c = False"

fun isNaN :: "js_number option \<Rightarrow> bool" where
  "isNaN None = True"
| "isNaN (Some NaN) = True"
| "isNaN (Some _) = False"

text \<open>\<^verbatim>\<open>s.split(c)\<close> for a one-character separator, and \<^verbatim>\<open>s.trim()\<close> on ASCII white space.\<close>

fun split_on :: "char \<Rightarrow> string \<Rightarrow> string list" where
  "split_on c [] = [[]]"
| "split_on c (x # xs) =
     (if x = c then [] # split_on c xs
      else (case split_on c xs of w # ws \<Rightarrow> (x # w) # ws | [] \<Rightarrow> [[x]]))"

definition is_space :: "char \<Rightarrow> bool" where
  "is_space c = (c \<in> set [CHR '' '', CHR 0x09, CHR 0x0A, CHR 0x0B, CHR 0x0C, CHR 0x0D])"

definition trim :: "string \<Rightarrow> string" where
  "trim s = rev (dropWhile is_space (rev (dropWhile is_space s)))"

text \<open>
  What the scheduler takes from outside the repository: the conversion
  \<^verbatim>\<open>Number\<close> of a string, the conversion of a number to text inside a template
  literal, \<^verbatim>\<open>cron.schedule\<close> of the cron library, which returns a task or throws,
  and the time zone of the host. Every statement about the scheduler holds for all of them.
\<close>

record 'task environment =
  env_Number :: "string \<Rightarrow> js_number"
  env_toString :: "js_number \<Rightarrow> string"
  env_schedule :: "string \<Rightarrow> string \<Rightarrow> thrown + 'task"
  env_timeZone :: "string option"

record ScheduleConfig =
  enabled :: bool
  times :: "string list"
  timezone :: "string option"

text \<open>
  \<^verbatim>\<open>const [hours, minutes] = time.split(':').map(Number)\<close>: the first two entries,
  the second one \<^verbatim>\<open>undefined\<close> when there is no colon.
\<close>

definition hours_of :: "'task environment \<Rightarrow> string \<Rightarrow> js_number option" where
  "hours_of env time =
     (case map (env_Number env) (split_on CHR '':'' time) of [] \<Rightarrow> None | h # rest \<Rightarrow> Some h)"

definition minutes_of :: "'task environment \<Rightarrow> string \<Rightarrow> js_number option" where
  "minutes_of env time =
     (case map (env_Number env) (split_on CHR '':'' time) of
        [] \<Rightarrow> None | [h] \<Rightarrow> None | h # m # rest \<Rightarrow> Some m)"

definition timeToCronExpression :: "'task environment \<Rightarrow> string \<Rightarrow> thrown + string" where
  "timeToCronExpression env time =
     (let hours = hours_of env time; minutes = minutes_of env time in
      if isNaN hours \<or> isNaN minutes \<or> js_less (the hours) 0 \<or> js_greater (the hours) 23 \<or>
         js_less (the minutes) 0 \<or> js_greater (the minutes) 59
      then Inl (OtherError (''Invalid time format: '' @ time @ ''. Expected format: HH:mm''))
      else Inr (env_toString env (the minutes) @ '' '' @ env_toString env (the hours) @ '' * * *''))"

text \<open>
  The lines \<^verbatim>\<open>setupScheduler\<close> writes to the console, by kind: the time and time
  zone of a registered task, or the time and the error of a failed registration.
\<close>

datatype log_entry =
  SchedulingDisabled | NoTimesConfigured
  | TaskRegistered string string | RegistrationFailed string thrown

text \<open>The \<^verbatim>\<open>for\<close> loop over \<^verbatim>\<open>config.times\<close>, with its \<^verbatim>\<open>try\<close>/\<^verbatim>\<open>catch\<close>.\<close>

fun register_times ::
  "'task environment \<Rightarrow> string \<Rightarrow> string list \<Rightarrow> 'task list \<Rightarrow> log_entry list
     \<Rightarrow> 'task list \<times> log_entry list" where
  "register_times env tz [] tasks logged = (tasks, logged)"
| "register_times env tz (time # rest) tasks logged =
     (case timeToCronExpression env (trim time) of
        Inl error \<Rightarrow> register_times env tz rest tasks (logged @ [RegistrationFailed time error])
      | Inr cronExpression \<Rightarrow>
          (case env_schedule env cronExpression tz of
             Inl error \<Rightarrow> register_times env tz rest tasks (logged @ [RegistrationFailed time error])
           | Inr task \<Rightarrow>
               register_times env tz rest (tasks @ [task]) (logged @ [TaskRegistered (trim time) tz])))"

text \<open>\<^verbatim>\<open>config.timezone || Intl.DateTimeFormat().resolvedOptions().timeZone || 'UTC'\<close>\<close>

definition resolve_timezone :: "'task environment \<Rightarrow> ScheduleConfig \<Rightarrow> string" where
  "resolve_timezone env config =
     (if truthy (timezone config) then the (timezone config)
      else if truthy (env_timeZone env) then the (env_timeZone env)
      else ''UTC'')"

definition setupScheduler ::
  "'task environment \<Rightarrow> ScheduleConfig \<Rightarrow> 'task list \<times> log_entry list" where
  "setupScheduler env config =
     (if \<not> enabled config then ([], [SchedulingDisabled])
      else if length (times config) = 0 then ([], [NoTimesConfigured])
      else register_times env (resolve_timezone env config) (times config) [] [])"

text \<open>
  What registering one entry on its own amounts to: the body of the loop, the cron
  expression of the trimmed time handed to the cron library.
\<close>

definition register_entry :: "'task environment \<Rightarrow> string \<Rightarrow> string \<Rightarrow> thrown + 'task" where
  "register_entry env tz time =
     (case timeToCronExpression env (trim time) of
        Inl error \<Rightarrow> Inl error
      | Inr cronExpression \<Rightarrow> env_schedule env cronExpression tz)"

text \<open>The tasks of those entries of a list that register, in the order of the list.\<close>

definition tasks_of :: "'task environment \<Rightarrow> string \<Rightarrow> string list \<Rightarrow> 'task list" where
  "tasks_of env tz entries =
     concat (map (\<lambda>time. case register_entry env tz time of Inr task \<Rightarrow> [task] | Inl error \<Rightarrow> [])
       entries)"

text \<open>The line logged for an entry: its registration, or its failure with the error.\<close>

definition log_of :: "'task environment \<Rightarrow> string \<Rightarrow> string \<Rightarrow> log_entry" where
  "log_of env tz time =
     (case register_entry env tz time of
        Inr task \<Rightarrow> TaskRegistered (trim time) tz
      | Inl error \<Rightarrow> RegistrationFailed time error)"

section \<open>Sample inputs\<close>

text \<open>Concrete clients, requests and messages on which the operations are evaluated.\<close>

definition sample_client :: SmtpClient where
  "sample_client = \<lparr>config_user = ''me@gmail.com'', transporter = (\<lambda>mail. Sent (Some ''<sent>''))\<rparr>"

definition sample_reply :: "string \<Rightarrow> ReplyEmailOptions" where
  "sample_reply subject =
     \<lparr>ro_originalUid = 7, ro_originalMessageId = ''<b>'', ro_subject = subject,
      ro_body = Some ''See you there.'', ro_htmlBody = None, ro_cc = None, ro_bcc = None\<rparr>"

definition sample_original :: "string option \<Rightarrow> string list option \<Rightarrow> originalEmail" where
  "sample_original subject refs =
     \<lparr>oe_from = Some ''alice@example.com'', oe_subject = subject,
      oe_messageId = Some ''<b>'', oe_references = refs\<rparr>"

definition sample_send :: "string option \<Rightarrow> string option \<Rightarrow> SendEmailOptions" where
  "sample_send body htmlBody =
     \<lparr>so_to = Str ''bob@example.com'', so_subject = ''Hello'', so_body = body,
      so_htmlBody = htmlBody, so_cc = None, so_bcc = None, so_replyTo = None,
      so_attachments = None, so_inReplyTo = None, so_references = None\<rparr>"

definition sample_parsed :: "string \<Rightarrow> ParsedMail" where
  "sample_parsed subject =
     \<lparr>pm_messageId = Some ''<id>'', pm_subject = Some subject,
      pm_from = OneAddress \<lparr>ea_name = None, ea_address = Some ''alice@example.com''\<rparr>,
      pm_to = NoAddress, pm_cc = NoAddress, pm_bcc = NoAddress, pm_replyTo = NoAddress,
      pm_date = None, pm_text = Some ''text'', pm_html = None, pm_attachments = None,
      pm_headers = [], pm_inReplyTo = None, pm_references = None\<rparr>"

definition sample_server :: "nat list \<Rightarrow> (nat list \<Rightarrow> fetch_event list) \<Rightarrow> imap_server" where
  "sample_server matches fetch =
     \<lparr>sv_connect = None, sv_openBox = (\<lambda>mailbox. None),
      sv_search = (\<lambda>criteria. Inr (Some matches)), sv_fetch = fetch,
      sv_addFlags = (\<lambda>uids flag. None)\<rparr>"

definition sample_list_options :: "int \<Rightarrow> int \<Rightarrow> EmailListOptions" where
  "sample_list_options limit offset =
     \<lparr>lo_limit = Some limit, lo_offset = Some offset,
      lo_searchCriteria = Some [Str ''ALL''], lo_mailbox = Some ''INBOX''\<rparr>"

text \<open>A fetch that delivers every requested message, read and parsed.\<close>

definition deliver_all :: "nat list \<Rightarrow> fetch_event list" where
  "deliver_all uids =
     map (\<lambda>uid. MessageEnd (Some \<lparr>at_uid = uid, at_flags = Some [Seen]\<rparr>)
                  (Parsed (sample_parsed ''Hello''))) uids"

text \<open>
  A sample environment, for evaluating the scheduler on concrete times: the number
  conversion is that of JavaScript on short strings of decimal digits and on blank strings and
  gives \<^verbatim>\<open>NaN\<close> elsewhere, the printing is that of JavaScript on natural numbers,
  the cron library accepts every expression and returns it with the time zone as the task.
\<close>

definition is_digit :: "char \<Rightarrow> bool" where
  "is_digit c = ((48::nat) \<le> of_char c \<and> (of_char c :: nat) \<le> 57)"

definition digits_Number :: "string \<Rightarrow> js_number" where
  "digits_Number s =
     (if trim s = [] then Finite 0
      else if list_all is_digit s
        then Finite (of_nat (foldl (\<lambda>n c. 10 * n + (of_char c - 48)) (0::nat) s))
      else NaN)"

definition digits_toString :: "js_number \<Rightarrow> string" where
  "digits_toString x = (case x of Finite q \<Rightarrow> show_nat (nat \<lfloor>q\<rfloor>) | _ \<Rightarrow> ''NaN'')"

definition sample_environment :: "(string \<times> string) environment" where
  "sample_environment =
     \<lparr>env_Number = digits_Number, env_toString = digits_toString,
      env_schedule = (\<lambda>cronExpression tz. Inr (cronExpression, tz)),
      env_timeZone = Some ''Europe/Berlin''\<rparr>"

definition sample_config :: ScheduleConfig where
  "sample_config = \<lparr>enabled = True, times = [''25:00'', ''15:00''], timezone = None\<rparr>"

section \<open>Properties of the retry wrapper\<close>

text \<open>
  While the operation keeps failing with retried errors and attempts remain, the loop
  moves on to the next attempt and records one wait per failure.
\<close>

lemma withRetry_loop_prefix:
  "fails_with fn s es = Some s' \<Longrightarrow> list_all retried es \<Longrightarrow> k + length es < m \<Longrightarrow>
   withRetry_loop fn m d k le s ws =
     withRetry_loop fn m d (k + length es) (if es = [] then le else last es) s'
       (ws @ backoffs d k es)"
proof (induction es arbitrary: s k le ws)
  case Nil
  then show ?case by simp
next
  case (Cons e es)
  from Cons.prems(1) obtain s1 where call: "fn s = (Rejected e, s1)"
    and rest: "fails_with fn s1 es = Some s'"
    by (auto split: prod.splits outcome.splits if_splits)
  from Cons.prems(2) have re: "retried e" and res: "list_all retried es" by simp_all
  from Cons.prems(3) have bound: "Suc k + length es < m" by simp
  have step: "withRetry_loop fn m d k le s ws =
      withRetry_loop fn m d (Suc k) e s1 (ws @ [backoff d k e])"
    using call re bound
    by (subst withRetry_loop.simps) (auto simp: retried_def backoff_def)
  have "withRetry_loop fn m d (Suc k) e s1 (ws @ [backoff d k e]) =
      withRetry_loop fn m d (Suc k + length es) (if es = [] then e else last es) s'
        ((ws @ [backoff d k e]) @ backoffs d (Suc k) es)"
    by (rule Cons.IH [OF rest res bound])
  with step show ?case by simp
qed

text \<open>After a run of retried failures, what the next attempt does decides the result.\<close>

lemma withRetry_loop_success:
  "k < m \<Longrightarrow> fn s = (Resolved v, s') \<Longrightarrow> withRetry_loop fn m d k le s ws = (Resolved v, s', ws)"
  by (subst withRetry_loop.simps) simp

lemma withRetry_loop_not_retryable:
  "k < m \<Longrightarrow> fn s = (Rejected e, s') \<Longrightarrow> \<not> instanceof_RateLimitError e \<Longrightarrow>
   instanceof_GmailMCPError e \<Longrightarrow> \<not> retryable e \<Longrightarrow>
   withRetry_loop fn m d k le s ws = (Rejected e, s', ws)"
  by (subst withRetry_loop.simps) simp

lemma withRetry_loop_last_attempt:
  "Suc k = m \<Longrightarrow> fn s = (Rejected e, s') \<Longrightarrow> withRetry_loop fn m d k le s ws = (Rejected e, s', ws)"
  by (subst withRetry_loop.simps) auto

lemma backoffs_rate_limit:
  "list_all instanceof_RateLimitError es \<Longrightarrow>
   backoffs d k es = map (\<lambda>i. d * 2 ^ i) [k ..< k + length es]"
proof (induction es arbitrary: k)
  case Nil
  then show ?case by simp
next
  case (Cons e es)
  then have "backoffs d (Suc k) es = map (\<lambda>i. d * 2 ^ i) [Suc k ..< Suc k + length es]"
    by simp
  moreover have "[k ..< k + length (e # es)] = k # [Suc k ..< Suc k + length es]"
    using upt_rec [of k "Suc (k + length es)"] by simp
  ultimately show ?case using Cons.prems by (simp add: backoff_def)
qed

lemma backoffs_unrecognised:
  "list_all (\<lambda>e. \<not> instanceof_GmailMCPError e) es \<Longrightarrow>
   backoffs d k es = map (\<lambda>i. d * (i + 1)) [k ..< k + length es]"
proof (induction es arbitrary: k)
  case Nil
  then show ?case by simp
next
  case (Cons e es)
  then have "backoffs d (Suc k) es = map (\<lambda>i. d * (i + 1)) [Suc k ..< Suc k + length es]"
    by simp
  moreover have "[k ..< k + length (e # es)] = k # [Suc k ..< Suc k + length es]"
    using upt_rec [of k "Suc (k + length es)"] by simp
  moreover have "\<not> instanceof_RateLimitError e"
    using Cons.prems by (cases e) simp_all
  ultimately show ?case by (simp add: backoff_def)
qed

text \<open>
  C4. The retry wrapper. Suppose the operation first fails \<open>length es\<close> times with
  the errors \<open>es\<close>, each of them retried by the policy (rate-limit kind, or outside
  the recognised hierarchy), and that an attempt is still left. Then the wrapper has
  waited \<open>backoffs d 0 es\<close>, that is \<open>d * 2 ^ k\<close> after attempt \<open>k\<close> for a
  rate-limit failure and \<open>d * (k + 1)\<close> for an unrecognised one, and what the next
  attempt does decides the result: a success is returned; a recognised error of another
  kind that is not retryable is rethrown at once, the operation being left in the state right after
  that one call and no further wait recorded; and an error of any kind on the last
  attempt is rethrown. With the defaults (3 attempts, delay 1000) two rate-limit
  failures followed by a success give the success value after waits 1000 and 2000.
\<close>

theorem withRetry_policy:
  assumes "fails_with fn s es = Some s'"
    and "list_all retried es"
    and "length es < m"
  shows "(fn s' = (Resolved v, s'') \<longrightarrow> withRetry fn m d s = (Resolved v, s'', backoffs d 0 es)) \<and>
    (fn s' = (Rejected e, s'') \<and> \<not> instanceof_RateLimitError e \<and>
       instanceof_GmailMCPError e \<and> \<not> retryable e \<longrightarrow>
       withRetry fn m d s = (Rejected e, s'', backoffs d 0 es)) \<and>
    (fn s' = (Rejected e, s'') \<and> length es + 1 = m \<longrightarrow>
       withRetry fn m d s = (Rejected e, s'', backoffs d 0 es)) \<and>
    (list_all instanceof_RateLimitError es \<longrightarrow>
       backoffs d 0 es = map (\<lambda>k. d * 2 ^ k) [0 ..< length es]) \<and>
    (list_all (\<lambda>e. \<not> instanceof_GmailMCPError e) es \<longrightarrow>
       backoffs d 0 es = map (\<lambda>k. d * (k + 1)) [0 ..< length es])"
proof -
  let ?le = "if es = [] then Undefined else last es"
  have run: "withRetry fn m d s = withRetry_loop fn m d (length es) ?le s' (backoffs d 0 es)"
    unfolding withRetry_def
    using withRetry_loop_prefix [OF assms(1) assms(2), of 0 m d Undefined "[]"] assms(3)
    by simp
  have a: "fn s' = (Resolved v, s'') \<longrightarrow> withRetry fn m d s = (Resolved v, s'', backoffs d 0 es)"
  proof
    assume h: "fn s' = (Resolved v, s'')"
    show "withRetry fn m d s = (Resolved v, s'', backoffs d 0 es)"
      by (subst run) (rule withRetry_loop_success [where fn = fn and s = s', OF assms(3) h])
  qed
  have b: "fn s' = (Rejected e, s'') \<and> \<not> instanceof_RateLimitError e \<and>
       instanceof_GmailMCPError e \<and> \<not> retryable e \<longrightarrow>
       withRetry fn m d s = (Rejected e, s'', backoffs d 0 es)"
  proof
    assume h: "fn s' = (Rejected e, s'') \<and> \<not> instanceof_RateLimitError e \<and>
       instanceof_GmailMCPError e \<and> \<not> retryable e"
    show "withRetry fn m d s = (Rejected e, s'', backoffs d 0 es)"
      using h by (subst run) (rule withRetry_loop_not_retryable [where fn = fn and s = s',
            OF assms(3)], simp_all)
  qed
  have c: "fn s' = (Rejected e, s'') \<and> length es + 1 = m \<longrightarrow>
       withRetry fn m d s = (Rejected e, s'', backoffs d 0 es)"
  proof
    assume h: "fn s' = (Rejected e, s'') \<and> length es + 1 = m"
    show "withRetry fn m d s = (Rejected e, s'', backoffs d 0 es)"
      using h by (subst run) (rule withRetry_loop_last_attempt [where fn = fn and s = s'],
          simp_all)
  qed
  have d: "list_all instanceof_RateLimitError es \<longrightarrow>
       backoffs d 0 es = map (\<lambda>k. d * 2 ^ k) [0 ..< length es]"
    using backoffs_rate_limit [of es d 0] by simp
  have e: "list_all (\<lambda>e. \<not> instanceof_GmailMCPError e) es \<longrightarrow>
       backoffs d 0 es = map (\<lambda>k. d * (k + 1)) [0 ..< length es]"
    using backoffs_unrecognised [of es d 0] by simp
  from a b c d e show ?thesis by (intro conjI)
qed

theorem withRetry_policy_witness:
  "withRetry_default scripted
     [Rejected (GmailMCP (RateLimitError ''limit'')), Rejected (GmailMCP (RateLimitError ''limit'')),
      Resolved (42::nat)]
     = (Resolved 42, [], [1000, 2000]) \<and>
   withRetry_default scripted
     [Rejected (GmailMCP (RateLimitError ''limit'')), Rejected (GmailMCP (NotFoundError ''Email'')),
      Resolved (42::nat)]
     = (Rejected (GmailMCP (NotFoundError ''Email'')), [Resolved 42], [1000]) \<and>
   withRetry scripted 4 1000
     [Rejected (OtherError ''a''), Rejected (OtherError ''b''), Rejected (OtherError ''c''),
      Rejected (OtherError ''d''), Resolved (42::nat)]
     = (Rejected (OtherError ''d''), [Resolved 42], [1000, 2000, 3000]) \<and>
   withRetry scripted 4 1000
     [Rejected (GmailMCP (RateLimitError ''limit'')), Rejected (GmailMCP (RateLimitError ''limit'')),
      Rejected (GmailMCP (RateLimitError ''limit'')), Rejected (GmailMCP (RateLimitError ''limit'')),
      Resolved (42::nat)]
     = (Rejected (GmailMCP (RateLimitError ''limit'')), [Resolved 42], [1000, 2000, 4000])"
proof -
  let ?rl = "GmailMCP (RateLimitError ''limit'')"
  let ?nf = "GmailMCP (NotFoundError ''Email'')"
  have rl: "instanceof_RateLimitError ?rl" "retried ?rl"
    by (simp_all add: RateLimitError_def retried_def)
  have nf: "instanceof_GmailMCPError ?nf" "\<not> retryable ?nf" "\<not> instanceof_RateLimitError ?nf"
    by (simp_all add: NotFoundError_def)
  have other: "retried (OtherError x)" "\<not> instanceof_GmailMCPError (OtherError x)" for x
    by (simp_all add: retried_def)
  have w1: "withRetry_default scripted [Rejected ?rl, Rejected ?rl, Resolved (42::nat)]
      = (Resolved 42, [], [1000, 2000])"
    using withRetry_policy [of scripted "[Rejected ?rl, Rejected ?rl, Resolved (42::nat)]" "[?rl, ?rl]"
        "[Resolved 42]" 3 42 "[]" 1000 Undefined] rl
    by (simp add: withRetry_default_def backoff_def)
  have w2: "withRetry_default scripted [Rejected ?rl, Rejected ?nf, Resolved (42::nat)]
      = (Rejected ?nf, [Resolved 42], [1000])"
    using withRetry_policy [of scripted "[Rejected ?rl, Rejected ?nf, Resolved (42::nat)]" "[?rl]"
        "[Rejected ?nf, Resolved 42]" 3 42 "[Resolved 42]" 1000 ?nf] rl nf
    by (simp add: withRetry_default_def backoff_def)
  have w3: "withRetry scripted 4 1000
      [Rejected (OtherError ''a''), Rejected (OtherError ''b''), Rejected (OtherError ''c''),
       Rejected (OtherError ''d''), Resolved (42::nat)]
      = (Rejected (OtherError ''d''), [Resolved 42], [1000, 2000, 3000])"
    using withRetry_policy [of scripted
        "[Rejected (OtherError ''a''), Rejected (OtherError ''b''), Rejected (OtherError ''c''),
          Rejected (OtherError ''d''), Resolved (42::nat)]"
        "[OtherError ''a'', OtherError ''b'', OtherError ''c'']"
        "[Rejected (OtherError ''d''), Resolved 42]" 4 42 "[Resolved 42]" 1000 "OtherError ''d''"] other
    by (simp add: backoff_def)
  have w4: "withRetry scripted 4 1000 [Rejected ?rl, Rejected ?rl, Rejected ?rl, Rejected ?rl, Resolved (42::nat)]
      = (Rejected ?rl, [Resolved 42], [1000, 2000, 4000])"
    using withRetry_policy [of scripted "[Rejected ?rl, Rejected ?rl, Rejected ?rl, Rejected ?rl, Resolved (42::nat)]"
        "[?rl, ?rl, ?rl]" "[Rejected ?rl, Resolved 42]" 4 42 "[Resolved 42]" 1000 ?rl] rl
    by (simp add: backoff_def)
  from w1 w2 w3 w4 show ?thesis by blast
qed

section \<open>Properties of the transmission client\<close>

text \<open>One attempt settles the call when it succeeds, never settles, or fails for good.\<close>

lemma withRetry_default_Resolved:
  "fn s = (Resolved v, s') \<Longrightarrow> withRetry_default fn s = (Resolved v, s', [])"
  unfolding withRetry_default_def withRetry_def
  by (rule withRetry_loop_success [where fn = fn and s = s]) simp_all

lemma withRetry_default_Pending:
  "fn s = (Pending, s') \<Longrightarrow> withRetry_default fn s = (Pending, s', [])"
  unfolding withRetry_default_def withRetry_def
  by (subst withRetry_loop.simps) simp

lemma withRetry_default_not_retryable:
  "fn s = (Rejected (GmailMCP e), s') \<Longrightarrow> err_class e \<noteq> RateLimitErrorClass \<Longrightarrow>
   \<not> err_retryable e \<Longrightarrow> withRetry_default fn s = (Rejected (GmailMCP e), s', [])"
  unfolding withRetry_default_def withRetry_def
  by (rule withRetry_loop_not_retryable [where fn = fn and s = s]) simp_all

lemma sendEmail_attempt_once:
  "withRetry_default (sendEmail_attempt client options) outbox =
     (fst (sendEmail_attempt client options outbox),
      outbox @ [build_mailOptions client options], [])"
proof (cases "transporter client (build_mailOptions client options)")
  case (SendFails msg)
  then show ?thesis
    by (intro withRetry_default_not_retryable [where fn = "sendEmail_attempt client options" and s = outbox, THEN trans])
      (simp_all add: sendEmail_attempt_def GmailMCPError_def)
next
  case (Sent messageId)
  then show ?thesis
    by (intro withRetry_default_Resolved [where fn = "sendEmail_attempt client options" and s = outbox, THEN trans])
      (simp_all add: sendEmail_attempt_def)
qed

lemma sendEmail_submits:
  "truthy_soa (so_to options) \<Longrightarrow> so_subject options \<noteq> [] \<Longrightarrow>
   truthy (so_body options) \<or> truthy (so_htmlBody options) \<Longrightarrow>
   sendEmail client options outbox =
     (fst (sendEmail_attempt client options outbox),
      outbox @ [build_mailOptions client options], [])"
  by (auto simp: sendEmail_def sendEmail_attempt_once)

lemma startsWith_append: "startsWith (p @ s) p"
  by (simp add: startsWith_def)

lemma reply_subject_not_Nil: "r \<noteq> [] \<Longrightarrow> reply_subject r orig \<noteq> []"
  by (simp add: reply_subject_def)

text \<open>A reply that passes both validations hands exactly one message to the transporter.\<close>

lemma replyEmail_submits:
  assumes "truthy (ro_body options) \<or> truthy (ro_htmlBody options)"
    and "truthy (oe_from original)"
    and "ro_subject options \<noteq> []"
  shows "\<exists>mail. fst (snd (replyEmail client options original outbox)) = outbox @ [mail] \<and>
      mo_to mail = [the (oe_from original)] \<and>
      mo_subject mail = reply_subject (ro_subject options) (oe_subject original) \<and>
      mo_inReplyTo mail = oe_messageId original \<and>
      mo_references mail =
        map_option (join '' '') (to_array (map_option Str (reply_references original)))"
proof -
  let ?opts = "\<lparr>so_to = Str (if truthy (oe_from original) then the (oe_from original) else []),
         so_subject = reply_subject (ro_subject options) (oe_subject original),
         so_body = ro_body options,
         so_htmlBody = ro_htmlBody options,
         so_cc = ro_cc options,
         so_bcc = ro_bcc options,
         so_replyTo = None,
         so_attachments = None,
         so_inReplyTo = oe_messageId original,
         so_references = map_option Str (reply_references original)\<rparr>"
  have r: "replyEmail client options original outbox = sendEmail client ?opts outbox"
    using assms(1) by (auto simp: replyEmail_def)
  have to: "truthy_soa (so_to ?opts)"
    using assms(2) by (simp add: truthy_def split: option.splits)
  have subj: "so_subject ?opts \<noteq> []"
    using assms(3) by (simp add: reply_subject_not_Nil)
  have body: "truthy (so_body ?opts) \<or> truthy (so_htmlBody ?opts)"
    using assms(1) by simp
  have "fst (snd (sendEmail client ?opts outbox)) = outbox @ [build_mailOptions client ?opts]"
    by (subst sendEmail_submits [OF to subj body]) simp
  with r assms(2) show ?thesis
    by (simp add: build_mailOptions_def)
qed

lemma reply_subject_unchanged:
  "(reply_subject replySubject original_subject = replySubject \<longleftrightarrow>
      startsWith replySubject ''Re:'' \<or>
      (\<exists>s. original_subject = Some s \<and> startsWith s ''Re:'')) \<and>
   (\<not> startsWith replySubject ''Re:'' \<and>
    \<not> (\<exists>s. original_subject = Some s \<and> startsWith s ''Re:'') \<longrightarrow>
      startsWith (reply_subject replySubject original_subject) ''Re: '')"
  by (cases original_subject) (auto simp: reply_subject_def startsWith_def truthy_def)

lemma reply_subject_prefixed:
  assumes "\<not> startsWith replySubject ''Re:''"
    and "\<not> (\<exists>s. original_subject = Some s \<and> startsWith s ''Re:'')"
  shows "reply_subject replySubject original_subject =
     ''Re: '' @ (if truthy original_subject then the original_subject else replySubject)"
  using assms by (cases original_subject) (auto simp: reply_subject_def)

text \<open>The subject of the one message a valid reply hands to the transporter.\<close>

lemma replyEmail_subject:
  assumes "truthy (ro_body options) \<or> truthy (ro_htmlBody options)"
    and "truthy (oe_from original)"
    and "ro_subject options \<noteq> []"
  shows "map mo_subject (fst (snd (replyEmail client options original outbox))) =
     map mo_subject outbox @ [reply_subject (ro_subject options) (oe_subject original)]"
  using replyEmail_submits [OF assms, of client outbox] by auto

text \<open>
  C2. A reply that passes validation hands one message to the transporter. Its subject
  is the caller's subject, unchanged, exactly when the caller's subject or the original
  message's subject starts with \<open>Re:\<close>; when neither does, it starts with the prefix
  \<open>Re: \<close>.
\<close>

theorem replyEmail_subject_unchanged_iff:
  assumes "truthy (ro_body options) \<or> truthy (ro_htmlBody options)"
    and "truthy (oe_from original)"
    and "ro_subject options \<noteq> []"
  shows "\<exists>subject.
     map mo_subject (fst (snd (replyEmail client options original outbox))) =
       map mo_subject outbox @ [subject] \<and>
     (subject = ro_subject options \<longleftrightarrow>
        startsWith (ro_subject options) ''Re:'' \<or>
        (\<exists>s. oe_subject original = Some s \<and> startsWith s ''Re:'')) \<and>
     (\<not> startsWith (ro_subject options) ''Re:'' \<and>
      \<not> (\<exists>s. oe_subject original = Some s \<and> startsWith s ''Re:'') \<longrightarrow>
        startsWith subject ''Re: '')"
  using replyEmail_subject [OF assms, of client outbox]
    reply_subject_unchanged [of "ro_subject options" "oe_subject original"]
  by blast

lemma sample_reply_valid:
  "truthy (ro_body (sample_reply subject)) \<or> truthy (ro_htmlBody (sample_reply subject))"
  "truthy (oe_from (sample_original original_subject refs))"
  "ro_subject (sample_reply subject) = subject"
  "oe_subject (sample_original original_subject refs) = original_subject"
  by (simp_all add: sample_reply_def sample_original_def truthy_def)

theorem replyEmail_subject_unchanged_iff_witness:
  "map mo_subject (fst (snd (replyEmail sample_client (sample_reply ''Re: Meeting'')
       (sample_original (Some ''Meeting'') None) []))) = [''Re: Meeting''] \<and>
   map mo_subject (fst (snd (replyEmail sample_client (sample_reply ''Hello'')
       (sample_original (Some ''Re: Meeting'') None) []))) = [''Hello''] \<and>
   startsWith (hd (map mo_subject (fst (snd (replyEmail sample_client (sample_reply ''Hello'')
       (sample_original (Some ''Meeting'') None) []))))) ''Re: ''"
  using replyEmail_subject_unchanged_iff [of "sample_reply ''Re: Meeting''"
      "sample_original (Some ''Meeting'') None" sample_client "[]"]
    replyEmail_subject_unchanged_iff [of "sample_reply ''Hello''"
      "sample_original (Some ''Re: Meeting'') None" sample_client "[]"]
    replyEmail_subject_unchanged_iff [of "sample_reply ''Hello''"
      "sample_original (Some ''Meeting'') None" sample_client "[]"]
  by (auto simp: sample_reply_valid startsWith_def)

text \<open>
  The caller's subject \<open>Hello\<close> does not start with \<open>Re:\<close> and the original's
  subject does: the subject of the reply handed to the transporter is \<open>Hello\<close>,
  unchanged and without prefix.
\<close>

theorem replyEmail_subject_original_prefixed_counterexample:
  "\<not> startsWith ''Hello'' ''Re:'' \<and> startsWith ''Re: Meeting'' ''Re:'' \<and>
   map mo_subject (fst (snd (replyEmail sample_client (sample_reply ''Hello'')
       (sample_original (Some ''Re: Meeting'') None) []))) = [''Hello''] \<and>
   \<not> startsWith ''Hello'' ''Re: ''"
  using replyEmail_subject [of "sample_reply ''Hello''"
      "sample_original (Some ''Re: Meeting'') None" sample_client "[]"]
  by (simp add: sample_reply_valid startsWith_def reply_subject_def)

text \<open>
  C9. For a reply that passes validation, when neither the caller's subject nor the
  original's starts with \<open>Re:\<close>, the subject handed to the transporter is \<open>Re: \<close>
  followed by the original message's subject, whatever the caller's subject is; the
  caller's subject follows the prefix only when the original has no subject (none at
  all, or an empty one).
\<close>

theorem replyEmail_subject_prefers_original:
  assumes "truthy (ro_body options) \<or> truthy (ro_htmlBody options)"
    and "truthy (oe_from original)"
    and "ro_subject options \<noteq> []"
    and "\<not> startsWith (ro_subject options) ''Re:''"
    and "\<not> (\<exists>s. oe_subject original = Some s \<and> startsWith s ''Re:'')"
  shows "(\<forall>s. oe_subject original = Some s \<and> s \<noteq> [] \<longrightarrow>
            map mo_subject (fst (snd (replyEmail client options original outbox))) =
              map mo_subject outbox @ [''Re: '' @ s]) \<and>
         (oe_subject original = None \<or> oe_subject original = Some [] \<longrightarrow>
            map mo_subject (fst (snd (replyEmail client options original outbox))) =
              map mo_subject outbox @ [''Re: '' @ ro_subject options])"
proof -
  have "map mo_subject (fst (snd (replyEmail client options original outbox))) =
     map mo_subject outbox @
       [''Re: '' @ (if truthy (oe_subject original) then the (oe_subject original)
                   else ro_subject options)]"
    using replyEmail_subject [OF assms(1) assms(2) assms(3), of client outbox]
      reply_subject_prefixed [OF assms(4) assms(5)] by simp
  then show ?thesis
    by (auto simp: truthy_def)
qed

theorem replyEmail_subject_prefers_original_witness:
  "map mo_subject (fst (snd (replyEmail sample_client (sample_reply ''Hello'')
       (sample_original (Some ''Meeting'') None) []))) = [''Re: Meeting''] \<and>
   map mo_subject (fst (snd (replyEmail sample_client (sample_reply ''Hello'')
       (sample_original None None) []))) = [''Re: Hello''] \<and>
   map mo_subject (fst (snd (replyEmail sample_client (sample_reply ''Hello'')
       (sample_original (Some []) None) []))) = [''Re: Hello'']"
  using replyEmail_subject_prefers_original [of "sample_reply ''Hello''"
      "sample_original (Some ''Meeting'') None" sample_client "[]"]
    replyEmail_subject_prefers_original [of "sample_reply ''Hello''"
      "sample_original None None" sample_client "[]"]
    replyEmail_subject_prefers_original [of "sample_reply ''Hello''"
      "sample_original (Some []) None" sample_client "[]"]
  by (simp add: sample_reply_valid startsWith_def)

lemma join_space_not_Nil: "m \<noteq> [] \<Longrightarrow> join '' '' (refs @ [m]) \<noteq> []"
  by (induction refs rule: join.induct[where ?a0.0 = "'' ''"]) auto

lemma filter_truthy_identifiers:
  "\<forall>r\<in>set refs. r \<noteq> [] \<Longrightarrow> m \<noteq> [] \<Longrightarrow>
   map the (filter truthy (map Some refs @ [Some m])) = refs @ [m]"
  by (induction refs) (simp_all add: truthy_def)

text \<open>
  C3. For a reply that is submitted and an original whose message identifier and
  references are identifiers (non-empty strings): when the original has a references
  list, the references header of the reply is that list followed by the original's
  message identifier, joined by single spaces; when it has none, the header is the
  message identifier alone.
\<close>

theorem replyEmail_references_header:
  assumes "truthy (ro_body options) \<or> truthy (ro_htmlBody options)"
    and "truthy (oe_from original)"
    and "ro_subject options \<noteq> []"
    and "oe_messageId original = Some m"
    and "m \<noteq> []"
  shows "(\<forall>refs. oe_references original = Some refs \<and> (\<forall>r\<in>set refs. r \<noteq> []) \<longrightarrow>
            map mo_references (fst (snd (replyEmail client options original outbox))) =
              map mo_references outbox @ [Some (join '' '' (refs @ [m]))]) \<and>
         (oe_references original = None \<longrightarrow>
            map mo_references (fst (snd (replyEmail client options original outbox))) =
              map mo_references outbox @ [Some m])"
proof -
  obtain mail where sub: "fst (snd (replyEmail client options original outbox)) = outbox @ [mail]"
    and hdr: "mo_references mail =
        map_option (join '' '') (to_array (map_option Str (reply_references original)))"
    using replyEmail_submits [OF assms(1) assms(2) assms(3)] by blast
  have with_refs: "mo_references mail = Some (join '' '' (refs @ [m]))"
    if "oe_references original = Some refs" and "\<forall>r\<in>set refs. r \<noteq> []" for refs
  proof -
    have "map the (filter truthy (map Some refs @ [oe_messageId original])) = refs @ [m]"
      using filter_truthy_identifiers [OF that(2) assms(5)] assms(4) by simp
    then have "reply_references original = Some (join '' '' (refs @ [m]))"
      using that(1) by (simp only: reply_references_def option.case)
    then show ?thesis
      using hdr join_space_not_Nil [OF assms(5), of refs] by simp
  qed
  have no_refs: "mo_references mail = Some m" if "oe_references original = None"
    using that assms(4) assms(5) hdr by (simp add: reply_references_def)
  show ?thesis
    using sub with_refs no_refs by simp
qed

theorem replyEmail_references_header_witness:
  "map mo_references (fst (snd (replyEmail sample_client (sample_reply ''Meeting'')
       (sample_original (Some ''Meeting'') (Some [''<a>''])) []))) = [Some ''<a> <b>''] \<and>
   map mo_references (fst (snd (replyEmail sample_client (sample_reply ''Meeting'')
       (sample_original (Some ''Meeting'') None) []))) = [Some ''<b>'']"
  using replyEmail_references_header [of "sample_reply ''Meeting''" "sample_original (Some ''Meeting'') (Some [''<a>''])"
      "''<b>''" sample_client "[]"]
    replyEmail_references_header [of "sample_reply ''Meeting''" "sample_original (Some ''Meeting'') None"
      "''<b>''" sample_client "[]"]
  by (simp add: sample_reply_def sample_original_def truthy_def)

text \<open>
  C5. A send request whose recipient is missing (the empty string), whose subject is
  empty, or which has neither a plain-text nor an HTML body is rejected with the code
  \<open>VALIDATION_ERROR\<close> before anything is handed to the transporter: the outbox
  is unchanged and no wait happened, whatever the transporter would have done.
\<close>

theorem sendEmail_validation_first:
  assumes "\<not> truthy_soa (so_to options) \<or> so_subject options = [] \<or>
     (\<not> truthy (so_body options) \<and> \<not> truthy (so_htmlBody options))"
  shows "\<exists>e. sendEmail client options outbox = (Rejected (GmailMCP e), outbox, []) \<and>
     err_code e = ''VALIDATION_ERROR'' \<and> \<not> err_retryable e"
  using assms by (auto simp: sendEmail_def GmailMCPError_def)

theorem sendEmail_validation_first_witness:
  "sendEmail sample_client (sample_send None None) [] =
     (Rejected (GmailMCP (GmailMCPError
        ''to, subject, and body (or htmlBody) are required'' ''VALIDATION_ERROR'')), [], []) \<and>
   sendEmail sample_client (sample_send (Some []) None) [] =
     (Rejected (GmailMCP (GmailMCPError
        ''to, subject, and body (or htmlBody) are required'' ''VALIDATION_ERROR'')), [], [])"
  using sendEmail_validation_first [of "sample_send None None" sample_client "[]"]
    sendEmail_validation_first [of "sample_send (Some []) None" sample_client "[]"]
  by (simp add: sample_send_def truthy_def sendEmail_def)

text \<open>
  C10. A reply to an original that has no sender address (no \<open>from\<close>, or an empty
  address) is rejected with the code \<open>VALIDATION_ERROR\<close> and nothing is handed
  to the transporter. When the reply has a body, the destination passed on is the empty
  string and the rejection is the one of \<open>sendEmail\<close>.
\<close>

theorem replyEmail_without_sender:
  assumes "\<not> truthy (oe_from original)"
  shows "(\<exists>e. replyEmail client options original outbox = (Rejected (GmailMCP e), outbox, []) \<and>
       err_code e = ''VALIDATION_ERROR'') \<and>
     (truthy (ro_body options) \<or> truthy (ro_htmlBody options) \<longrightarrow>
       replyEmail client options original outbox =
         (Rejected (GmailMCP (GmailMCPError
            ''to, subject, and body (or htmlBody) are required'' ''VALIDATION_ERROR'')),
          outbox, []))"
  using assms by (auto simp: replyEmail_def sendEmail_def GmailMCPError_def)

theorem replyEmail_without_sender_witness:
  "replyEmail sample_client (sample_reply ''Meeting'')
     \<lparr>oe_from = None, oe_subject = Some ''Meeting'', oe_messageId = Some ''<b>'',
      oe_references = None\<rparr> [] =
     (Rejected (GmailMCP (GmailMCPError
        ''to, subject, and body (or htmlBody) are required'' ''VALIDATION_ERROR'')), [], [])"
  using replyEmail_without_sender [of
      "\<lparr>oe_from = None, oe_subject = Some ''Meeting'', oe_messageId = Some ''<b>'',
        oe_references = None\<rparr>" sample_client "sample_reply ''Meeting''" "[]"]
  by (simp add: truthy_def sample_reply_def)

section \<open>Properties of the mailbox client\<close>

lemma js_slice_window:
  assumes "0 \<le> offset" and "0 \<le> limit"
  shows "js_slice xs offset (offset + limit) = take (nat limit) (drop (nat offset) xs)"
proof (cases "offset < int (length xs)")
  case True
  then have "min (offset + limit) (int (length xs)) - offset = min limit (int (length xs) - offset)"
    by linarith
  moreover have "take (nat (min limit (int (length xs) - offset))) (drop (nat offset) xs) =
      take (nat limit) (drop (nat offset) xs)"
    using assms True by (simp add: min_def nat_le_iff)
  ultimately show ?thesis
    using assms True by (simp add: js_slice_def Let_def)
next
  case False
  then show ?thesis
    using assms by (simp add: js_slice_def Let_def)
qed

lemma on_event_message:
  assumes "is_message ev" and "fs_promise st = Pending"
  shows "on_event n st ev =
     \<lparr>fs_emails = fs_emails st @ parsed_message ev,
      fs_processed = fs_processed st + 1,
      fs_promise = (if fs_processed st + 1 = n then Resolved (fs_emails st @ parsed_message ev)
                    else Pending),
      fs_log = fs_log st @ parse_error_line ev\<rparr>"
proof (cases ev)
  case (FetchError msg)
  with assms show ?thesis by simp
next
  case (MessageEnd attrs parse)
  show ?thesis
  proof (cases attrs)
    case None
    with MessageEnd assms show ?thesis
      by (cases st) (simp add: count_processed_def settle_def Let_def)
  next
    case (Some a)
    with MessageEnd assms show ?thesis
      by (cases st; cases parse) (simp_all add: count_processed_def settle_def Let_def)
  qed
qed

text \<open>While fewer events than selected messages have been handled, the promise is pending.\<close>

lemma fetch_messages_pending:
  "list_all is_message evs \<Longrightarrow> fs_promise st = Pending \<Longrightarrow>
   fs_processed st + length evs < n \<Longrightarrow>
   foldl (on_event n) st evs =
     \<lparr>fs_emails = fs_emails st @ concat (map parsed_message evs),
      fs_processed = fs_processed st + length evs,
      fs_promise = Pending,
      fs_log = fs_log st @ concat (map parse_error_line evs)\<rparr>"
proof (induction evs arbitrary: st)
  case Nil
  then show ?case by (cases st) simp
next
  case (Cons ev evs)
  let ?st = "on_event n st ev"
  have step: "?st = \<lparr>fs_emails = fs_emails st @ parsed_message ev,
      fs_processed = fs_processed st + 1, fs_promise = Pending,
      fs_log = fs_log st @ parse_error_line ev\<rparr>"
    using on_event_message [of ev st n] Cons.prems by simp
  have "foldl (on_event n) ?st evs =
     \<lparr>fs_emails = fs_emails ?st @ concat (map parsed_message evs),
      fs_processed = fs_processed ?st + length evs,
      fs_promise = Pending,
      fs_log = fs_log ?st @ concat (map parse_error_line evs)\<rparr>"
    using Cons.prems by (intro Cons.IH) (simp_all add: step)
  then show ?case by (simp add: step)
qed

text \<open>The event that completes the count resolves the promise with the messages so far.\<close>

lemma fetch_messages_complete:
  assumes "list_all is_message evs" and "evs \<noteq> []" and "length evs = n"
  shows "run_fetch n evs =
     \<lparr>fs_emails = concat (map parsed_message evs),
      fs_processed = n,
      fs_promise = Resolved (concat (map parsed_message evs)),
      fs_log = concat (map parse_error_line evs)\<rparr>"
proof -
  let ?init = "\<lparr>fs_emails = [], fs_processed = 0, fs_promise = Pending, fs_log = []\<rparr>"
  obtain pre ev where split: "evs = pre @ [ev]"
    using assms(2) by (cases evs rule: rev_cases) auto
  have pre: "foldl (on_event n) ?init pre =
     \<lparr>fs_emails = concat (map parsed_message pre), fs_processed = length pre,
      fs_promise = Pending, fs_log = concat (map parse_error_line pre)\<rparr>"
    using fetch_messages_pending [of pre ?init n] assms(1) assms(3) split by simp
  have "is_message ev"
    using assms(1) split by simp
  then show ?thesis
    using on_event_message [of ev "foldl (on_event n) ?init pre" n] assms(3)
    by (simp add: run_fetch_def split pre)
qed

text \<open>A settled promise stays as it is.\<close>

lemma on_event_settled: "fs_promise st \<noteq> Pending \<Longrightarrow> fs_promise (on_event n st ev) = fs_promise st"
proof (cases ev)
  case (FetchError msg)
  assume "fs_promise st \<noteq> Pending"
  with FetchError show ?thesis by (simp add: settle_def)
next
  case (MessageEnd attrs parse)
  assume "fs_promise st \<noteq> Pending"
  with MessageEnd show ?thesis
    by (cases attrs; cases parse) (simp_all add: count_processed_def settle_def Let_def)
qed

lemma fetch_settled:
  "fs_promise st \<noteq> Pending \<Longrightarrow> fs_promise (foldl (on_event n) st evs) = fs_promise st"
  by (induction evs arbitrary: st) (simp_all add: on_event_settled)

text \<open>An error of the fetch before the count is complete rejects the promise for good.\<close>

lemma fetch_error_rejects:
  assumes "list_all is_message pre" and "length pre < n"
  shows "fs_promise (run_fetch n (pre @ FetchError msg # post)) =
     Rejected (GmailMCP (GmailMCPError (''IMAP fetch error: '' @ msg) ''IMAP_ERROR''))"
proof -
  let ?init = "\<lparr>fs_emails = [], fs_processed = 0, fs_promise = Pending, fs_log = []\<rparr>"
  let ?mid = "foldl (on_event n) ?init pre"
  have "fs_promise ?mid = Pending"
    using fetch_messages_pending [of pre ?init n] assms by simp
  then have "fs_promise (on_event n ?mid (FetchError msg)) =
      Rejected (GmailMCP (GmailMCPError (''IMAP fetch error: '' @ msg) ''IMAP_ERROR''))"
    by (simp add: settle_def)
  then show ?thesis
    using fetch_settled [of "on_event n ?mid (FetchError msg)" n post]
    by (simp add: run_fetch_def)
qed

text \<open>
  One run of a listing whose connection, mailbox and search succeed and whose window
  of UIDs is not empty is decided by the fetch.
\<close>

lemma listEmails_attempt_fetch:
  assumes "limit = limit_of options \<and> offset = offset_of options \<and>
       criteria = searchCriteria_of options \<and> mailbox = mailbox_of options"
    and "openMailbox server mailbox conn = (None, True)"
    and "sv_search server criteria = Inr (Some results)"
    and "js_slice (rev results) offset (offset + limit) = uids"
    and "uids \<noteq> []"
  shows "listEmails_attempt server options (conn, lg) =
     (fs_promise (run_fetch (length uids) (sv_fetch server uids)), True,
      lg @ fs_log (run_fetch (length uids) (sv_fetch server uids)))"
proof -
  have "results \<noteq> []"
    using assms(4) assms(5) by (auto simp: js_slice_def Let_def)
  then show ?thesis
    using assms by (simp add: listEmails_attempt_def Let_def)
qed

lemma listEmails_attempt_empty:
  assumes "limit = limit_of options \<and> offset = offset_of options \<and>
       criteria = searchCriteria_of options \<and> mailbox = mailbox_of options"
    and "openMailbox server mailbox conn = (None, True)"
    and "sv_search server criteria = Inr r"
    and "js_slice (rev (case r of Some results \<Rightarrow> results | None \<Rightarrow> [])) offset (offset + limit) = []"
  shows "listEmails_attempt server options (conn, lg) = (Resolved [], True, lg)"
  using assms by (cases r) (simp_all add: listEmails_attempt_def Let_def)

text \<open>
  The listing as a whole, when the fetch delivers one message event per selected UID and
  no error: the parsed messages are returned and the parse errors are logged.
\<close>

lemma listEmails_all_delivered:
  assumes "limit = limit_of options \<and> offset = offset_of options \<and>
       criteria = searchCriteria_of options \<and> mailbox = mailbox_of options"
    and "openMailbox server mailbox conn = (None, True)"
    and "sv_search server criteria = Inr (Some results)"
    and "js_slice (rev results) offset (offset + limit) = uids"
    and "uids \<noteq> []"
    and "sv_fetch server uids = evs"
    and "list_all is_message evs"
    and "length evs = length uids"
  shows "listEmails server options conn =
     (Resolved (concat (map parsed_message evs)), (True, concat (map parse_error_line evs)), [])"
proof -
  have "evs \<noteq> []"
    using assms(5) assms(8) by auto
  then have "run_fetch (length uids) evs =
     \<lparr>fs_emails = concat (map parsed_message evs), fs_processed = length uids,
      fs_promise = Resolved (concat (map parsed_message evs)),
      fs_log = concat (map parse_error_line evs)\<rparr>"
    using fetch_messages_complete [OF assms(7) _ assms(8)] by simp
  then have "listEmails_attempt server options (conn, []) =
     (Resolved (concat (map parsed_message evs)), True, concat (map parse_error_line evs))"
    using listEmails_attempt_fetch [OF assms(1) assms(2) assms(3) assms(4) assms(5), of "[]"]
      assms(6) by simp
  then show ?thesis
    unfolding listEmails_def
    by (rule withRetry_default_Resolved [where fn = "listEmails_attempt server options"])
qed

lemma listEmails_fetch_error:
  assumes "limit = limit_of options \<and> offset = offset_of options \<and>
       criteria = searchCriteria_of options \<and> mailbox = mailbox_of options"
    and "openMailbox server mailbox conn = (None, True)"
    and "sv_search server criteria = Inr (Some results)"
    and "js_slice (rev results) offset (offset + limit) = uids"
    and "uids \<noteq> []"
    and "sv_fetch server uids = pre @ FetchError msg # post"
    and "list_all is_message pre"
    and "length pre < length uids"
  shows "fst (listEmails server options conn) =
     Rejected (GmailMCP (GmailMCPError (''IMAP fetch error: '' @ msg) ''IMAP_ERROR''))"
proof -
  let ?e = "GmailMCPError (''IMAP fetch error: '' @ msg) ''IMAP_ERROR''"
  let ?st = "run_fetch (length uids) (sv_fetch server uids)"
  have "fs_promise ?st = Rejected (GmailMCP ?e)"
    using fetch_error_rejects [OF assms(7) assms(8)] assms(6) by simp
  then have "listEmails_attempt server options (conn, []) =
      (Rejected (GmailMCP ?e), (True, fs_log ?st))"
    using listEmails_attempt_fetch [OF assms(1) assms(2) assms(3) assms(4) assms(5), of "[]"]
    by simp
  then have "listEmails server options conn = (Rejected (GmailMCP ?e), (True, fs_log ?st), [])"
    unfolding listEmails_def
    by (rule withRetry_default_not_retryable [where fn = "listEmails_attempt server options"])
      (simp_all add: GmailMCPError_def)
  then show ?thesis by simp
qed

lemma listEmails_empty:
  assumes "limit = limit_of options \<and> offset = offset_of options \<and>
       criteria = searchCriteria_of options \<and> mailbox = mailbox_of options"
    and "openMailbox server mailbox conn = (None, True)"
    and "sv_search server criteria = Inr r"
    and "js_slice (rev (case r of Some results \<Rightarrow> results | None \<Rightarrow> [])) offset (offset + limit) = []"
  shows "listEmails server options conn = (Resolved [], (True, []), [])"
  unfolding listEmails_def
  by (rule withRetry_default_Resolved [where fn = "listEmails_attempt server options"])
    (rule listEmails_attempt_empty [OF assms])

text \<open>
  C1. A listing with limit \<open>L\<close> and offset \<open>F\<close> (both at least 0; 50 and 0
  when not given) whose connection, mailbox and search succeed, the search matching the
  UIDs \<open>results\<close> (none, when the server answers with nothing), and whose fetch
  delivers each selected message with its attributes and a source that parses: the call
  returns the messages of the UIDs at positions \<open>F\<close> to \<open>F + L - 1\<close> of the
  reversed match order, in that order, that is \<open>min L (N - F)\<close> messages (the
  subtraction stopping at 0) for \<open>N\<close> matches, and no message when nothing matches.
\<close>

theorem listEmails_window:
  assumes "limit = limit_of options \<and> offset = offset_of options \<and>
       criteria = searchCriteria_of options \<and> mailbox = mailbox_of options"
    and "openMailbox server mailbox conn = (None, True)"
    and "sv_search server criteria = Inr r"
    and "results = (case r of Some uids \<Rightarrow> uids | None \<Rightarrow> [])"
    and "0 \<le> limit" and "0 \<le> offset"
    and "sv_fetch server (take (nat limit) (drop (nat offset) (rev results))) =
       map (\<lambda>uid. MessageEnd (Some \<lparr>at_uid = uid, at_flags = flags uid\<rparr>) (Parsed (source uid)))
         (take (nat limit) (drop (nat offset) (rev results)))"
  shows "\<exists>msgs. fst (listEmails server options conn) = Resolved msgs \<and>
     map em_uid msgs = take (nat limit) (drop (nat offset) (rev results)) \<and>
     length msgs = min (nat limit) (length results - nat offset) \<and>
     msgs = map (\<lambda>uid. parseEmail (source uid) uid (case flags uid of Some fl \<Rightarrow> fl | None \<Rightarrow> []))
              (take (nat limit) (drop (nat offset) (rev results)))"
proof -
  let ?uids = "take (nat limit) (drop (nat offset) (rev results))"
  let ?ev = "\<lambda>uid. MessageEnd (Some \<lparr>at_uid = uid, at_flags = flags uid\<rparr>) (Parsed (source uid))"
  let ?msg = "\<lambda>uid. parseEmail (source uid) uid (case flags uid of Some fl \<Rightarrow> fl | None \<Rightarrow> [])"
  have window: "js_slice (rev results) offset (offset + limit) = ?uids"
    by (rule js_slice_window [OF assms(6) assms(5)])
  have uid: "map em_uid (map ?msg ?uids) = ?uids"
    by (simp add: parseEmail_def Let_def comp_def)
  have len: "length (map ?msg ?uids) = min (nat limit) (length results - nat offset)"
    by simp
  have "fst (listEmails server options conn) = Resolved (map ?msg ?uids)"
  proof (cases "?uids = []")
    case True
    then have "listEmails server options conn = (Resolved [], (True, []), [])"
      using listEmails_empty [OF assms(1) assms(2) assms(3)] window assms(4) by simp
    with True show ?thesis by simp
  next
    case False
    then obtain uids where r: "r = Some uids" and res: "results = uids"
      using assms(4) by (cases r) auto
    have parsed: "concat (map (parsed_message \<circ> ?ev) us) = map ?msg us" for us
      by (induction us) simp_all
    have "listEmails server options conn =
       (Resolved (concat (map parsed_message (map ?ev ?uids))),
        (True, concat (map parse_error_line (map ?ev ?uids))), [])"
      using assms(3) assms(7) window False r res
      by (intro listEmails_all_delivered [OF assms(1) assms(2), where results = results and uids = ?uids])
        (simp_all add: list_all_iff)
    then show ?thesis by (simp add: parsed)
  qed
  with uid len show ?thesis by blast
qed

lemma sample_options:
  "limit_of (sample_list_options limit offset) = limit"
  "offset_of (sample_list_options limit offset) = offset"
  "searchCriteria_of (sample_list_options limit offset) = [Str ''ALL'']"
  "mailbox_of (sample_list_options limit offset) = ''INBOX''"
  by (simp_all add: sample_list_options_def limit_of_def offset_of_def searchCriteria_of_def
      mailbox_of_def)

lemma sample_server_opens: "openMailbox (sample_server matches fetch) mailbox conn = (None, True)"
  by (simp add: openMailbox_def sample_server_def)

theorem listEmails_window_witness:
  "fst (listEmails (sample_server [3, 5, 8, 9] deliver_all) (sample_list_options 2 1) False) =
     Resolved [parseEmail (sample_parsed ''Hello'') 8 [Seen],
               parseEmail (sample_parsed ''Hello'') 5 [Seen]]"
proof -
  have fetch: "sv_fetch (sample_server [3, 5, 8, 9] deliver_all) uids =
      map (\<lambda>uid. MessageEnd (Some \<lparr>at_uid = uid, at_flags = (\<lambda>u. Some [Seen]) uid\<rparr>)
                   (Parsed ((\<lambda>u. sample_parsed ''Hello'') uid))) uids" for uids
    by (simp add: sample_server_def deliver_all_def)
  have search: "sv_search (sample_server [3, 5, 8, 9] deliver_all) [Str ''ALL''] =
      Inr (Some [3, 5, 8, 9])"
    by (simp add: sample_server_def)
  have window: "take (nat 2) (drop (nat 1) (rev [3, 5, 8, 9 :: nat])) = [8, 5]"
    by simp
  show ?thesis
    using listEmails_window [where options = "sample_list_options 2 1" and limit = 2
        and offset = 1 and criteria = "[Str ''ALL'']" and mailbox = "''INBOX''"
        and server = "sample_server [3, 5, 8, 9] deliver_all" and conn = False
        and r = "Some [3, 5, 8, 9]" and results = "[3, 5, 8, 9]"
        and flags = "\<lambda>u. Some [Seen]" and source = "\<lambda>u. sample_parsed ''Hello''",
        OF _ sample_server_opens search _ _ _ fetch]
    by (simp add: sample_options window)
qed

text \<open>
  C6. In a listing whose fetch delivers one message event for each selected UID and no
  error, a message whose source the parser rejects is logged and left out, a message
  whose attributes never arrived is left out without a log line, and the call returns
  the messages that parsed. An error emitted by the fetch before the last selected
  message has been handled rejects the whole call with the code \<open>IMAP_ERROR\<close>.
\<close>

theorem listEmails_partial_failure:
  assumes "limit = limit_of options \<and> offset = offset_of options \<and>
       criteria = searchCriteria_of options \<and> mailbox = mailbox_of options"
    and "openMailbox server mailbox conn = (None, True)"
    and "sv_search server criteria = Inr (Some results)"
    and "js_slice (rev results) offset (offset + limit) = uids"
    and "uids \<noteq> []"
  shows "(sv_fetch server uids = evs \<and> list_all is_message evs \<and> length evs = length uids \<longrightarrow>
       listEmails server options conn =
         (Resolved (concat (map parsed_message evs)),
          (True, concat (map parse_error_line evs)), [])) \<and>
     (sv_fetch server uids = pre @ FetchError msg # post \<and> list_all is_message pre \<and>
      length pre < length uids \<longrightarrow>
       fst (listEmails server options conn) =
         Rejected (GmailMCP (GmailMCPError (''IMAP fetch error: '' @ msg) ''IMAP_ERROR'')))"
  using listEmails_all_delivered [OF assms, of evs]
    listEmails_fetch_error [OF assms, of pre msg post]
  by blast

theorem listEmails_partial_failure_witness:
  "listEmails (sample_server [7, 8] (\<lambda>uids.
       [MessageEnd (Some \<lparr>at_uid = 8, at_flags = None\<rparr>) (ParseThrows ''bad header''),
        MessageEnd (Some \<lparr>at_uid = 7, at_flags = None\<rparr>) (Parsed (sample_parsed ''b''))]))
     (sample_list_options 50 0) True =
     (Resolved [parseEmail (sample_parsed ''b'') 7 []],
      (True, [''Error parsing email 8: bad header'']), []) \<and>
   fst (listEmails (sample_server [7, 8] (\<lambda>uids.
       [MessageEnd (Some \<lparr>at_uid = 8, at_flags = None\<rparr>) (Parsed (sample_parsed ''a'')),
        FetchError ''connection lost'']))
     (sample_list_options 50 0) True) =
     Rejected (GmailMCP (GmailMCPError ''IMAP fetch error: connection lost'' ''IMAP_ERROR''))"
proof -
  let ?evs = "[MessageEnd (Some \<lparr>at_uid = 8, at_flags = None\<rparr>) (ParseThrows ''bad header''),
        MessageEnd (Some \<lparr>at_uid = 7, at_flags = None\<rparr>) (Parsed (sample_parsed ''b''))]"
  let ?pre = "[MessageEnd (Some \<lparr>at_uid = 8, at_flags = None\<rparr>) (Parsed (sample_parsed ''a''))]"
  have window: "js_slice (rev [7, 8 :: nat]) 0 (0 + 50) = [8, 7]"
    by (simp add: js_slice_def)
  have a: "listEmails (sample_server [7, 8] (\<lambda>uids. ?evs)) (sample_list_options 50 0) True =
     (Resolved [parseEmail (sample_parsed ''b'') 7 []],
      (True, [''Error parsing email 8: bad header'']), [])"
    using listEmails_partial_failure [of 50 "sample_list_options 50 0" 0 "[Str ''ALL'']"
        "''INBOX''" "sample_server [7, 8] (\<lambda>uids. ?evs)" True "[7, 8]" "[8, 7]" ?evs,
        OF _ sample_server_opens _ window]
    by (simp add: sample_options sample_server_def show_nat.simps digit_char_def)
  have b: "fst (listEmails (sample_server [7, 8] (\<lambda>uids. ?pre @ [FetchError ''connection lost'']))
     (sample_list_options 50 0) True) =
     Rejected (GmailMCP (GmailMCPError ''IMAP fetch error: connection lost'' ''IMAP_ERROR''))"
    using listEmails_partial_failure [of 50 "sample_list_options 50 0" 0 "[Str ''ALL'']"
        "''INBOX''" "sample_server [7, 8] (\<lambda>uids. ?pre @ [FetchError ''connection lost''])"
        True "[7, 8]" "[8, 7]" _ ?pre "''connection lost''" "[]",
        OF _ sample_server_opens _ window]
    by (simp add: sample_options sample_server_def)
  from a b show ?thesis by simp
qed

text \<open>
  Two listings of the UIDs 8 and 7. In the first, the message that arrives without
  attributes is left out and nothing is logged. In the second, the fetch emits an error
  and the whole call is rejected.
\<close>

theorem listEmails_fetch_failure_counterexample:
  "listEmails (sample_server [7, 8] (\<lambda>uids.
       [MessageEnd None (Parsed (sample_parsed ''a'')),
        MessageEnd (Some \<lparr>at_uid = 7, at_flags = None\<rparr>) (Parsed (sample_parsed ''b''))]))
     (sample_list_options 50 0) True =
     (Resolved [parseEmail (sample_parsed ''b'') 7 []], (True, []), []) \<and>
   fst (listEmails (sample_server [7, 8] (\<lambda>uids. [FetchError ''connection lost'']))
     (sample_list_options 50 0) True) =
     Rejected (GmailMCP (GmailMCPError ''IMAP fetch error: connection lost'' ''IMAP_ERROR''))"
proof -
  let ?evs = "[MessageEnd None (Parsed (sample_parsed ''a'')),
        MessageEnd (Some \<lparr>at_uid = 7, at_flags = None\<rparr>) (Parsed (sample_parsed ''b''))]"
  have window: "js_slice (rev [7, 8 :: nat]) 0 (0 + 50) = [8, 7]"
    by (simp add: js_slice_def)
  have a: "listEmails (sample_server [7, 8] (\<lambda>uids. ?evs)) (sample_list_options 50 0) True =
     (Resolved [parseEmail (sample_parsed ''b'') 7 []], (True, []), [])"
    using listEmails_all_delivered [of 50 "sample_list_options 50 0" 0 "[Str ''ALL'']"
        "''INBOX''" "sample_server [7, 8] (\<lambda>uids. ?evs)" True "[7, 8]" "[8, 7]" ?evs,
        OF _ sample_server_opens _ window]
    by (simp add: sample_options sample_server_def)
  have b: "fst (listEmails (sample_server [7, 8] (\<lambda>uids. [] @ [FetchError ''connection lost'']))
     (sample_list_options 50 0) True) =
     Rejected (GmailMCP (GmailMCPError ''IMAP fetch error: connection lost'' ''IMAP_ERROR''))"
    using listEmails_fetch_error [of 50 "sample_list_options 50 0" 0 "[Str ''ALL'']"
        "''INBOX''" "sample_server [7, 8] (\<lambda>uids. [] @ [FetchError ''connection lost''])"
        True "[7, 8]" "[8, 7]" "[]" "''connection lost''" "[]",
        OF _ sample_server_opens _ window]
    by (simp add: sample_options sample_server_def)
  from a b show ?thesis by simp
qed

lemma parseEmail_unread: "unread_matches_flags (parseEmail parsed uid flags)"
  by (simp add: unread_matches_flags_def parseEmail_def Let_def)

text \<open>A value the retry wrapper returns is a value the operation returned.\<close>

lemma withRetry_loop_Resolved:
  "fst (withRetry_loop fn m d k le s ws) = Resolved v \<Longrightarrow> \<exists>s0. fst (fn s0) = Resolved v"
proof (induction "m - k" arbitrary: k le s ws)
  case 0
  then show ?case
    by (subst (asm) withRetry_loop.simps) simp
next
  case (Suc n)
  then have k: "k < m" and n: "n = m - (k + 1)" by simp_all
  obtain r s' where call: "fn s = (r, s')" by (cases "fn s")
  show ?case
  proof (cases r)
    case (Resolved v')
    with Suc.prems k call have "v' = v"
      by (subst (asm) withRetry_loop.simps) simp
    with Resolved call show ?thesis
      by (intro exI [of _ s]) simp
  next
    case Pending
    with Suc.prems k call show ?thesis
      by (subst (asm) withRetry_loop.simps) simp
  next
    case (Rejected e)
    with Suc.prems k call have "\<exists>le' ws'.
        fst (withRetry_loop fn m d (k + 1) le' s' ws') = Resolved v"
      by (subst (asm) withRetry_loop.simps) (auto split: if_splits)
    then show ?thesis
      using Suc.hyps(1) [OF n] by blast
  qed
qed

lemma withRetry_default_Resolved_from:
  "fst (withRetry_default fn s) = Resolved v \<Longrightarrow> \<exists>s0. fst (fn s0) = Resolved v"
  unfolding withRetry_default_def withRetry_def by (rule withRetry_loop_Resolved)

text \<open>
  Every message in the array of a listing, and every message of an array the promise
  was resolved with, has its \<open>unread\<close> field computed from its flags.
\<close>

lemma on_event_unread:
  assumes "\<forall>m\<in>set (fs_emails st). unread_matches_flags m"
    and "\<forall>ms. fs_promise st = Resolved ms \<longrightarrow> (\<forall>m\<in>set ms. unread_matches_flags m)"
  shows "(\<forall>m\<in>set (fs_emails (on_event n st ev)). unread_matches_flags m) \<and>
     (\<forall>ms. fs_promise (on_event n st ev) = Resolved ms \<longrightarrow> (\<forall>m\<in>set ms. unread_matches_flags m))"
proof (cases ev)
  case (FetchError msg)
  with assms show ?thesis by (auto simp: settle_def split: if_splits)
next
  case (MessageEnd attrs parse)
  show ?thesis
  proof (cases attrs)
    case None
    with MessageEnd assms show ?thesis
      by (auto simp: count_processed_def settle_def Let_def split: if_splits)
  next
    case (Some a)
    with MessageEnd assms show ?thesis
      by (cases parse)
        (auto simp: count_processed_def settle_def Let_def parseEmail_unread split: if_splits)
  qed
qed

lemma fetch_unread:
  "\<forall>m\<in>set (fs_emails st). unread_matches_flags m \<Longrightarrow>
   \<forall>ms. fs_promise st = Resolved ms \<longrightarrow> (\<forall>m\<in>set ms. unread_matches_flags m) \<Longrightarrow>
   fs_promise (foldl (on_event n) st evs) = Resolved msgs \<Longrightarrow>
   \<forall>m\<in>set msgs. unread_matches_flags m"
proof (induction evs arbitrary: st)
  case Nil
  then show ?case by simp
next
  case (Cons ev evs)
  have step: "(\<forall>m\<in>set (fs_emails (on_event n st ev)). unread_matches_flags m) \<and>
     (\<forall>ms. fs_promise (on_event n st ev) = Resolved ms \<longrightarrow> (\<forall>m\<in>set ms. unread_matches_flags m))"
    by (rule on_event_unread [OF Cons.prems(1) Cons.prems(2)])
  show ?case
    using Cons.IH [of "on_event n st ev"] step Cons.prems(3) by simp
qed

lemma listEmails_attempt_unread:
  assumes "fst (listEmails_attempt server options s) = Resolved msgs"
  shows "\<forall>m\<in>set msgs. unread_matches_flags m"
proof -
  have "msgs = [] \<or> (\<exists>n evs. fs_promise (run_fetch n evs) = Resolved msgs)"
    using assms
    by (auto simp: listEmails_attempt_def Let_def
        split: prod.splits option.splits sum.splits if_splits)
  then show ?thesis
    using fetch_unread [of "\<lparr>fs_emails = [], fs_processed = 0, fs_promise = Pending, fs_log = []\<rparr>"]
    by (auto simp: run_fetch_def)
qed

lemma listEmails_unread:
  assumes "fst (listEmails server options conn) = Resolved msgs"
  shows "\<forall>m\<in>set msgs. unread_matches_flags m"
proof -
  obtain s0 where "fst (listEmails_attempt server options s0) = Resolved msgs"
    using assms withRetry_default_Resolved_from [of "listEmails_attempt server options"]
    unfolding listEmails_def by blast
  then show ?thesis by (rule listEmails_attempt_unread)
qed

lemma getEmail_event_step:
  assumes "\<forall>m. p = Resolved m \<longrightarrow> unread_matches_flags m"
    and "getEmail_event uid p ev = Resolved msg"
  shows "unread_matches_flags msg"
proof (cases ev)
  case (FetchError err)
  with assms show ?thesis
    by (cases p) (simp_all add: settle_def)
next
  case (MessageEnd attrs parse)
  with assms show ?thesis
    by (cases parse; cases p) (auto simp: settle_def intro: parseEmail_unread)
qed

lemma getEmail_events_unread:
  "\<forall>m. p = Resolved m \<longrightarrow> unread_matches_flags m \<Longrightarrow>
   foldl (getEmail_event uid) p evs = Resolved msg \<Longrightarrow> unread_matches_flags msg"
proof (induction evs arbitrary: p)
  case Nil
  then show ?case by simp
next
  case (Cons ev evs)
  have "\<forall>m. getEmail_event uid p ev = Resolved m \<longrightarrow> unread_matches_flags m"
    using getEmail_event_step [OF Cons.prems(1)] by blast
  then show ?case
    using Cons.IH [of "getEmail_event uid p ev"] Cons.prems(2) by simp
qed

lemma getEmail_unread:
  assumes "fst (getEmail server uid mailbox conn) = Resolved msg"
  shows "unread_matches_flags msg"
proof -
  obtain c where att: "fst (getEmail_attempt server uid mailbox c) = Resolved msg"
    using assms withRetry_default_Resolved_from [of "getEmail_attempt server uid mailbox"]
    unfolding getEmail_def by blast
  have "foldl (getEmail_event uid) Pending (sv_fetch server [uid]) = Resolved msg"
  proof (cases "openMailbox server mailbox c")
    case (Pair err c')
    with att show ?thesis
      by (cases err) (simp_all add: getEmail_attempt_def)
  qed
  then show ?thesis
    using getEmail_events_unread [of Pending uid "sv_fetch server [uid]" msg] by simp
qed

text \<open>
  C8. In every message returned by \<open>listEmails\<close>, \<open>searchEmails\<close> or
  \<open>getEmail\<close>, whatever the server and the parser do, the \<open>unread\<close> field is true
  exactly when the seen marker is not among the message's flags.
\<close>

theorem unread_is_not_seen:
  "(fst (listEmails server options conn) = Resolved msgs \<longrightarrow>
      (\<forall>m\<in>set msgs. em_unread m = (Seen \<notin> set (em_flags m)))) \<and>
   (fst (searchEmails server search conn) = Resolved msgs \<longrightarrow>
      (\<forall>m\<in>set msgs. em_unread m = (Seen \<notin> set (em_flags m)))) \<and>
   (fst (getEmail server uid mailbox conn) = Resolved msg \<longrightarrow>
      em_unread msg = (Seen \<notin> set (em_flags msg)))"
proof (intro conjI impI)
  assume "fst (listEmails server options conn) = Resolved msgs"
  then show "\<forall>m\<in>set msgs. em_unread m = (Seen \<notin> set (em_flags m))"
    using listEmails_unread [of server options conn msgs]
    by (simp add: unread_matches_flags_def)
next
  assume "fst (searchEmails server search conn) = Resolved msgs"
  then show "\<forall>m\<in>set msgs. em_unread m = (Seen \<notin> set (em_flags m))"
    unfolding searchEmails_def
    by (rule listEmails_unread [unfolded unread_matches_flags_def])
next
  assume "fst (getEmail server uid mailbox conn) = Resolved msg"
  then show "em_unread msg = (Seen \<notin> set (em_flags msg))"
    by (rule getEmail_unread [unfolded unread_matches_flags_def])
qed

theorem unread_is_not_seen_witness:
  "fst (listEmails (sample_server [7, 8] (\<lambda>uids.
       [MessageEnd (Some \<lparr>at_uid = 8, at_flags = Some [Seen]\<rparr>) (Parsed (sample_parsed ''a'')),
        MessageEnd (Some \<lparr>at_uid = 7, at_flags = None\<rparr>) (Parsed (sample_parsed ''b''))]))
     (sample_list_options 50 0) True) =
     Resolved [parseEmail (sample_parsed ''a'') 8 [Seen], parseEmail (sample_parsed ''b'') 7 []] \<and>
   fst (searchEmails (sample_server [7, 8] (\<lambda>uids.
       [MessageEnd (Some \<lparr>at_uid = 8, at_flags = Some [Seen]\<rparr>) (Parsed (sample_parsed ''a'')),
        MessageEnd (Some \<lparr>at_uid = 7, at_flags = None\<rparr>) (Parsed (sample_parsed ''b''))]))
     \<lparr>sr_criteria = [Str ''ALL''], sr_mailbox = None, sr_limit = None\<rparr> True) =
     Resolved [parseEmail (sample_parsed ''a'') 8 [Seen], parseEmail (sample_parsed ''b'') 7 []] \<and>
   fst (getEmail (sample_server [7, 8] (\<lambda>uids.
       [MessageEnd (Some \<lparr>at_uid = 8, at_flags = Some [Seen]\<rparr>) (Parsed (sample_parsed ''a'')),
        MessageEnd (Some \<lparr>at_uid = 7, at_flags = None\<rparr>) (Parsed (sample_parsed ''b''))]))
     8 ''INBOX'' True) = Resolved (parseEmail (sample_parsed ''a'') 8 [Seen]) \<and>
   \<not> em_unread (parseEmail (sample_parsed ''a'') 8 [Seen]) \<and>
   em_unread (parseEmail (sample_parsed ''b'') 7 [])"
proof -
  let ?evs = "[MessageEnd (Some \<lparr>at_uid = 8, at_flags = Some [Seen]\<rparr>) (Parsed (sample_parsed ''a'')),
        MessageEnd (Some \<lparr>at_uid = 7, at_flags = None\<rparr>) (Parsed (sample_parsed ''b''))]"
  let ?server = "sample_server [7, 8] (\<lambda>uids. ?evs)"
  let ?search = "\<lparr>sr_criteria = [Str ''ALL''], sr_mailbox = None, sr_limit = None\<rparr>"
  let ?m8 = "parseEmail (sample_parsed ''a'') 8 [Seen]"
  let ?m7 = "parseEmail (sample_parsed ''b'') 7 []"
  have window: "js_slice (rev [7, 8 :: nat]) 0 (0 + 50) = [8, 7]"
    by (simp add: js_slice_def)
  have all: "listEmails ?server options True = (Resolved [?m8, ?m7], (True, []), [])"
    if "50 = limit_of options \<and> 0 = offset_of options \<and>
       [Str ''ALL''] = searchCriteria_of options \<and> ''INBOX'' = mailbox_of options" for options
    using listEmails_all_delivered [of 50 options 0 "[Str ''ALL'']"
        "''INBOX''" ?server True "[7, 8]" "[8, 7]" ?evs, OF that sample_server_opens _ window]
    by (simp add: sample_server_def)
  have listed: "fst (listEmails ?server (sample_list_options 50 0) True) = Resolved [?m8, ?m7]"
    using all [of "sample_list_options 50 0"] by (simp add: sample_options)
  have searched: "fst (searchEmails ?server ?search True) = Resolved [?m8, ?m7]"
    unfolding searchEmails_def
    by (subst all)
      (simp_all add: limit_of_def offset_of_def searchCriteria_of_def mailbox_of_def)
  have fetch: "sv_fetch ?server uids = ?evs" for uids
    by (simp add: sample_server_def)
  have "getEmail_attempt ?server 8 ''INBOX'' True = (Resolved ?m8, True)"
    by (simp add: getEmail_attempt_def sample_server_opens fetch settle_def)
  then have "getEmail ?server 8 ''INBOX'' True = (Resolved ?m8, True, [])"
    unfolding getEmail_def
    by (rule withRetry_default_Resolved [where fn = "getEmail_attempt ?server 8 ''INBOX''"])
  then have got: "fst (getEmail ?server 8 ''INBOX'' True) = Resolved ?m8"
    by simp
  have flags: "em_flags (parseEmail parsed uid fl) = fl" for parsed uid fl
    by (simp add: parseEmail_def Let_def)
  show ?thesis
    using unread_is_not_seen [of ?server "sample_list_options 50 0" True "[?m8, ?m7]"
        ?search 8 "''INBOX''" ?m8] listed searched got
    by (simp add: flags)
qed

section \<open>Properties of the scheduler\<close>

text \<open>The loop handles each entry on its own: no entry changes what another one yields.\<close>

lemma register_times_each:
  "register_times env tz entries tasks logged =
     (tasks @ tasks_of env tz entries, logged @ map (log_of env tz) entries)"
proof (induction entries arbitrary: tasks logged)
  case Nil
  then show ?case by (simp add: tasks_of_def)
next
  case (Cons time rest)
  show ?case
  proof (cases "timeToCronExpression env (trim time)")
    case (Inl error)
    then show ?thesis
      using Cons.IH by (simp add: tasks_of_def log_of_def register_entry_def)
  next
    case (Inr cronExpression)
    then show ?thesis
      using Cons.IH
      by (cases "env_schedule env cronExpression tz")
        (simp_all add: tasks_of_def log_of_def register_entry_def)
  qed
qed

lemma tasks_of_append: "tasks_of env tz (xs @ ys) = tasks_of env tz xs @ tasks_of env tz ys"
  by (simp add: tasks_of_def)

lemma timeToCronExpression_out_of_range:
  assumes "(hours_of env time = Some h \<and> (js_less h 0 \<or> js_greater h 23)) \<or>
     (minutes_of env time = Some m \<and> (js_less m 0 \<or> js_greater m 59))"
  shows "timeToCronExpression env time =
     Inl (OtherError (''Invalid time format: '' @ time @ ''. Expected format: HH:mm''))"
  using assms by (auto simp: timeToCronExpression_def Let_def)

lemma timeToCronExpression_in_range:
  assumes "hours_of env time = Some (Finite hq)" and "0 \<le> hq" and "hq \<le> 23"
    and "minutes_of env time = Some (Finite mq)" and "0 \<le> mq" and "mq \<le> 59"
  shows "timeToCronExpression env time =
     Inr (env_toString env (Finite mq) @ '' '' @ env_toString env (Finite hq) @ '' * * *'')"
  using assms by (simp add: timeToCronExpression_def Let_def)

text \<open>
  C7. With scheduling enabled, an entry of the configured times whose hour is outside
  0 to 23 or whose minute is outside 0 to 59 fails with the error
  \<open>Invalid time format: ... Expected format: HH:mm\<close>, which is logged, and is skipped:
  the tasks registered are exactly those of the entries before it followed by those of
  the entries after it. Every other entry whose hour and minute are in range, and whose
  cron expression the cron library accepts, has its task among the registered ones.
\<close>

theorem setupScheduler_skips_invalid_entry:
  assumes "enabled config"
    and "times config = before @ bad # after"
    and "(hours_of env (trim bad) = Some h \<and> (js_less h 0 \<or> js_greater h 23)) \<or>
       (minutes_of env (trim bad) = Some m \<and> (js_less m 0 \<or> js_greater m 59))"
  shows "timeToCronExpression env (trim bad) =
       Inl (OtherError (''Invalid time format: '' @ trim bad @ ''. Expected format: HH:mm'')) \<and>
     RegistrationFailed bad
         (OtherError (''Invalid time format: '' @ trim bad @ ''. Expected format: HH:mm''))
       \<in> set (snd (setupScheduler env config)) \<and>
     fst (setupScheduler env config) =
       tasks_of env (resolve_timezone env config) before @
       tasks_of env (resolve_timezone env config) after \<and>
     (\<forall>good\<in>set (before @ after). \<forall>hq mq task.
        hours_of env (trim good) = Some (Finite hq) \<and> 0 \<le> hq \<and> hq \<le> 23 \<and>
        minutes_of env (trim good) = Some (Finite mq) \<and> 0 \<le> mq \<and> mq \<le> 59 \<and>
        env_schedule env
          (env_toString env (Finite mq) @ '' '' @ env_toString env (Finite hq) @ '' * * *'')
          (resolve_timezone env config) = Inr task \<longrightarrow>
        task \<in> set (fst (setupScheduler env config)))"
proof -
  let ?tz = "resolve_timezone env config"
  let ?err = "OtherError (''Invalid time format: '' @ trim bad @ ''. Expected format: HH:mm'')"
  have invalid: "timeToCronExpression env (trim bad) = Inl ?err"
    by (rule timeToCronExpression_out_of_range [OF assms(3)])
  then have entry: "register_entry env ?tz bad = Inl ?err"
    by (simp add: register_entry_def)
  have run: "setupScheduler env config =
      (tasks_of env ?tz (times config), map (log_of env ?tz) (times config))"
    using assms(1) assms(2) by (simp add: setupScheduler_def register_times_each)
  have "tasks_of env ?tz [bad] = []"
    using entry by (simp add: tasks_of_def)
  then have tasks: "fst (setupScheduler env config) = tasks_of env ?tz before @ tasks_of env ?tz after"
    using run assms(2) tasks_of_append [of env ?tz before "[bad] @ after"]
      tasks_of_append [of env ?tz "[bad]" after] by simp
  have "log_of env ?tz bad = RegistrationFailed bad ?err"
    using entry by (simp add: log_of_def)
  then have logged: "RegistrationFailed bad ?err \<in> set (snd (setupScheduler env config))"
    using run assms(2) by (simp add: image_iff)
  have valid: "task \<in> set (fst (setupScheduler env config))"
    if "good \<in> set (before @ after)"
      and "hours_of env (trim good) = Some (Finite hq)" and "0 \<le> hq" and "hq \<le> 23"
      and "minutes_of env (trim good) = Some (Finite mq)" and "0 \<le> mq" and "mq \<le> 59"
      and "env_schedule env
          (env_toString env (Finite mq) @ '' '' @ env_toString env (Finite hq) @ '' * * *'')
          ?tz = Inr task"
    for good hq mq task
  proof -
    have "register_entry env ?tz good = Inr task"
      using timeToCronExpression_in_range [OF that(2) that(3) that(4) that(5) that(6) that(7)]
        that(8) by (simp add: register_entry_def)
    then have "task \<in> set (tasks_of env ?tz (before @ after))"
      using that(1) by (force simp: tasks_of_def)
    then show ?thesis
      using tasks by (simp add: tasks_of_append)
  qed
  from invalid logged tasks valid show ?thesis by blast
qed

lemma sample_numbers:
  "digits_Number ''25'' = Finite 25" "digits_Number ''15'' = Finite 15"
  "digits_Number ''00'' = Finite 0"
  by (simp_all add: digits_Number_def trim_def is_space_def is_digit_def)

lemma sample_printing: "digits_toString (Finite 15) = ''15''" "digits_toString (Finite 0) = ''0''"
  by (simp_all add: digits_toString_def show_nat.simps digit_char_def)

theorem setupScheduler_skips_invalid_entry_witness:
  "setupScheduler sample_environment sample_config =
     ([(''0 15 * * *'', ''Europe/Berlin'')],
      [RegistrationFailed ''25:00''
         (OtherError ''Invalid time format: 25:00. Expected format: HH:mm''),
       TaskRegistered ''15:00'' ''Europe/Berlin''])"
proof -
  have parts: "split_on CHR '':'' ''25:00'' = [''25'', ''00'']"
    "split_on CHR '':'' ''15:00'' = [''15'', ''00'']"
    by simp_all
  have trimmed: "trim ''25:00'' = ''25:00''" "trim ''15:00'' = ''15:00''"
    by (simp_all add: trim_def is_space_def)
  have hours: "hours_of sample_environment ''25:00'' = Some (Finite 25)"
    "hours_of sample_environment ''15:00'' = Some (Finite 15)"
    by (simp_all add: hours_of_def sample_environment_def parts sample_numbers)
  have minutes: "minutes_of sample_environment ''25:00'' = Some (Finite 0)"
    "minutes_of sample_environment ''15:00'' = Some (Finite 0)"
    by (simp_all add: minutes_of_def sample_environment_def parts sample_numbers)
  have tz: "resolve_timezone sample_environment sample_config = ''Europe/Berlin''"
    by (simp add: resolve_timezone_def sample_environment_def sample_config_def truthy_def)
  have env: "env_toString sample_environment = digits_toString"
    "env_schedule sample_environment = (\<lambda>cronExpression tz. Inr (cronExpression, tz))"
    by (simp_all add: sample_environment_def)
  have cron: "timeToCronExpression sample_environment ''15:00'' = Inr ''0 15 * * *''"
    using timeToCronExpression_in_range [OF hours(2) _ _ minutes(2)]
    by (simp add: env sample_printing)
  have good: "register_entry sample_environment ''Europe/Berlin'' ''15:00'' =
      Inr (''0 15 * * *'', ''Europe/Berlin'')"
    by (simp add: register_entry_def trimmed cron env)
  have config: "enabled sample_config" "times sample_config = [''25:00'', ''15:00'']"
    "times sample_config = [] @ ''25:00'' # [''15:00'']"
    by (simp_all add: sample_config_def)
  have run: "setupScheduler sample_environment sample_config =
      (fst (setupScheduler sample_environment sample_config),
       map (log_of sample_environment ''Europe/Berlin'') [''25:00'', ''15:00''])"
    by (simp add: setupScheduler_def register_times_each config(1,2) tz)
  show ?thesis
    using setupScheduler_skips_invalid_entry [of sample_config "[]" "''25:00''" "[''15:00'']"
        sample_environment "Finite 25" "Finite 0"]
    by (subst run)
      (simp add: config(1,3) trimmed hours minutes tz tasks_of_def log_of_def good
        register_entry_def [of _ _ "''25:00''"])
qed

end
